theory Spec2Isabelle
  imports Complex_Main
begin

section \<open>JavaScript numbers\<close>

text \<open>
  A JavaScript \<open>number\<close> is an IEEE 754 double: a finite value, \<open>NaN\<close> or one of the two
  infinities. A finite double is kept as the rational it denotes, and every arithmetic
  operation rounds its exact result to the nearest double, ties to the even significand
  (\<open>round_double\<close>): 53 significant bits, the exponent from \<open>-1022\<close> (below it the
  subnormal grid of step \<open>2^-1074\<close>) to \<open>1023\<close>, and overflow to an infinity from
  \<open>2^1024\<close> on. The two zeros are one value here: they are equal under \<open>===\<close>, and the
  only operation that separates them, a division by zero, is one the program never
  performs (its one division has a divisor that is \<open>> 0\<close>).
\<close>

datatype number = Finite rat | NaN | PosInfinity | NegInfinity

definition round_half_even :: "rat \<Rightarrow> int" where
  "round_half_even x =
     (let f = \<lfloor>x\<rfloor>; d = x - of_int f
      in if d < 1 / 2 then f else if 1 / 2 < d then f + 1 else if even f then f else f + 1)"

function bitlen :: "int \<Rightarrow> int" where
  "bitlen n = (if n \<le> 0 then 0 else 1 + bitlen (n div 2))"
  by pat_completeness auto
termination
  by (relation "measure nat") auto

declare bitlen.simps [simp del]

text \<open>
  \<open>exponent a\<close> is the integer \<open>e\<close> with \<open>2^e \<le> a < 2^(e+1)\<close>, for \<open>a > 0\<close>; \<open>bitlen n\<close>
  is the number of binary digits of \<open>n\<close>.
\<close>

definition exponent :: "rat \<Rightarrow> int" where
  "exponent a = (if 1 \<le> a then bitlen \<lfloor>a\<rfloor> - 1 else - bitlen (\<lceil>1 / a\<rceil> - 1))"

definition pow2 :: "int \<Rightarrow> rat" where
  "pow2 k = (if 0 \<le> k then 2 ^ nat k else 1 / 2 ^ nat (- k))"

definition round_double :: "rat \<Rightarrow> number" where
  "round_double r =
     (if r = 0 then Finite 0
      else
        (let a = \<bar>r\<bar>;
             e = max (exponent a) (- 1022);
             ulp = pow2 (e - 52);
             m = of_int (round_half_even (a / ulp)) * ulp
         in if pow2 1024 \<le> m then (if 0 < r then PosInfinity else NegInfinity)
            else Finite (if 0 < r then m else - m)))"

fun js_neg :: "number \<Rightarrow> number" where
  "js_neg (Finite a) = Finite (- a)"
| "js_neg NaN = NaN"
| "js_neg PosInfinity = NegInfinity"
| "js_neg NegInfinity = PosInfinity"

text \<open>
  The operators the program uses: \<open>+\<close>, \<open>-\<close>, \<open>*\<close>, \<open>/\<close> and \<open>>\<close>, with the special
  values of IEEE 754. A division of a finite value by zero gives an infinity of the sign of
  the dividend (or \<open>NaN\<close> for \<open>0 / 0\<close>), the zero taken as \<open>+0\<close>.
\<close>

fun js_add :: "number \<Rightarrow> number \<Rightarrow> number" where
  "js_add (Finite a) (Finite b) = round_double (a + b)"
| "js_add NaN y = NaN"
| "js_add x NaN = NaN"
| "js_add PosInfinity NegInfinity = NaN"
| "js_add NegInfinity PosInfinity = NaN"
| "js_add PosInfinity y = PosInfinity"
| "js_add x PosInfinity = PosInfinity"
| "js_add NegInfinity y = NegInfinity"
| "js_add x NegInfinity = NegInfinity"

definition js_sub :: "number \<Rightarrow> number \<Rightarrow> number" where
  "js_sub x y = js_add x (js_neg y)"

fun js_mul :: "number \<Rightarrow> number \<Rightarrow> number" where
  "js_mul (Finite a) (Finite b) = round_double (a * b)"
| "js_mul NaN y = NaN"
| "js_mul x NaN = NaN"
| "js_mul (Finite a) y = (if a = 0 then NaN else if 0 < a then y else js_neg y)"
| "js_mul x (Finite b) = (if b = 0 then NaN else if 0 < b then x else js_neg x)"
| "js_mul PosInfinity PosInfinity = PosInfinity"
| "js_mul PosInfinity NegInfinity = NegInfinity"
| "js_mul NegInfinity PosInfinity = NegInfinity"
| "js_mul NegInfinity NegInfinity = PosInfinity"

fun js_div :: "number \<Rightarrow> number \<Rightarrow> number" where
  "js_div (Finite a) (Finite b) =
     (if b = 0 then (if a = 0 then NaN else if 0 < a then PosInfinity else NegInfinity)
      else round_double (a / b))"
| "js_div NaN y = NaN"
| "js_div x NaN = NaN"
| "js_div (Finite a) y = Finite 0"
| "js_div x (Finite b) = (if 0 \<le> b then x else js_neg x)"
| "js_div PosInfinity PosInfinity = NaN"
| "js_div PosInfinity NegInfinity = NaN"
| "js_div NegInfinity PosInfinity = NaN"
| "js_div NegInfinity NegInfinity = NaN"

fun js_gt :: "number \<Rightarrow> number \<Rightarrow> bool" where
  "js_gt (Finite a) (Finite b) = (b < a)"
| "js_gt NaN y = False"
| "js_gt x NaN = False"
| "js_gt x PosInfinity = False"
| "js_gt PosInfinity y = True"
| "js_gt NegInfinity y = False"
| "js_gt x NegInfinity = True"

definition is_double :: "number \<Rightarrow> bool" where
  "is_double x = (case x of Finite r \<Rightarrow> round_double r = Finite r | _ \<Rightarrow> True)"

definition representable :: "rat \<Rightarrow> bool" where
  "representable r = (round_double r = Finite r)"

section \<open>Data model (types.ts, models.js)\<close>

text \<open>
  Modelling decisions for the data.
  \<^item> A \<open>date\<close> is the instant it denotes, in milliseconds: the value of
    \<open>new Date(d).getTime()\<close> on the client, the \<open>Date\<close> the schema casts to on the server.
  \<^item> The two collections of the server, each with a unique index on \<open>id\<close>, are maps from
    the id to the document. The \<open>Record<string, InventoryItem>\<close> of the client is the map
    of the own properties of the object; what a read of \<open>newInventory[key]\<close> finds for a
    key that is not an own property is \<open>get_property\<close> below.
  \<^item> A number field of a line item is a \<open>number\<close>; a value that is a double satisfies
    \<open>is_double\<close>, and \<open>representable r\<close> says that the rational \<open>r\<close> is a double.
\<close>

type_synonym instant = int

datatype InvoiceStatus = DRAFT | PENDING | PAID | OVERDUE

datatype TransactionType = PURCHASE | SALE

record LineItem =
  item_id :: string
  description :: string
  item_quantity :: number
  price :: number

record Invoice =
  txn_id :: string
  txn_type :: TransactionType
  invoiceNumber :: string
  partyName :: string
  date :: instant
  dueDate :: "instant option"
  status :: InvoiceStatus
  items :: "LineItem list"
  totalAmount :: number
  txn_notes :: "string option"

record InventoryItem =
  inv_id :: string
  name :: string
  quantity :: number
  averageCost :: number
  sellingPrice :: number
  lastUpdated :: instant

section \<open>Product key: \<open>item.description.trim().toLowerCase()\<close>\<close>

text \<open>
  \<open>String.prototype.trim\<close> removes the WhiteSpace and LineTerminator code units at both
  ends; below 256 these are TAB, LF, VT, FF, CR, SP and NBSP.
\<close>

definition isWhiteSpace :: "char \<Rightarrow> bool" where
  "isWhiteSpace c = (of_char c \<in> {9, 10, 11, 12, 13, 32, 160 :: nat})"

definition trim :: "string \<Rightarrow> string" where
  "trim s = rev (dropWhile isWhiteSpace (rev (dropWhile isWhiteSpace s)))"

text \<open>
  \<open>String.prototype.toLowerCase\<close> below 256: the letters A to Z and the Latin-1 capitals
  U+00C0 to U+00DE, the multiplication sign U+00D7 apart, move up by 32.
\<close>

definition toLowerCase_char :: "char \<Rightarrow> char" where
  "toLowerCase_char c =
     (let n = (of_char c :: nat)
      in if (65 \<le> n \<and> n \<le> 90) \<or> (192 \<le> n \<and> n \<le> 222 \<and> n \<noteq> 215)
         then char_of (n + 32) else c)"

definition toLowerCase :: "string \<Rightarrow> string" where
  "toLowerCase s = map toLowerCase_char s"

definition productKey :: "string \<Rightarrow> string" where
  "productKey d = toLowerCase (trim d)"

section \<open>Server: \<open>POST /api/transactions\<close>, \<open>DELETE /api/transactions/:id\<close> (server.js)\<close>

record State =
  transactions :: "string \<rightharpoonup> Invoice"
  inventory :: "string \<rightharpoonup> InventoryItem"

datatype error = ValidationError

datatype response =
    TransactionJson Invoice
  | SuccessJson bool
  | Status500 error

text \<open>
  The body of the \<open>for (const item of transaction.items)\<close> loop up to the save:
  \<open>Inventory.findOne\<close> reads the document of the product id, a missing one is created, and
  the branch of the transaction type updates it.
\<close>

definition invItem_of ::
  "(string \<rightharpoonup> InventoryItem) \<Rightarrow> Invoice \<Rightarrow> LineItem \<Rightarrow> InventoryItem" where
  "invItem_of Inventory transaction item =
     (let productId = toLowerCase (trim (description item));
          invItem0 = (case Inventory productId of
                        None \<Rightarrow> \<lparr>inv_id = productId, name = description item,
                                 quantity = Finite 0, averageCost = Finite 0,
                                 sellingPrice = Finite 0, lastUpdated = date transaction\<rparr>
                      | Some found \<Rightarrow> found);
          invItem1 =
            (if txn_type transaction = PURCHASE then
               (let currentTotalValue = js_mul (quantity invItem0) (averageCost invItem0);
                    newItemsValue = js_mul (item_quantity item) (price item);
                    added = invItem0\<lparr>quantity := js_add (quantity invItem0) (item_quantity item)\<rparr>
                in if js_gt (quantity added) (Finite 0)
                   then added\<lparr>averageCost :=
                          js_div (js_add currentTotalValue newItemsValue) (quantity added)\<rparr>
                   else added)
             else if txn_type transaction = SALE then
               invItem0\<lparr>quantity := js_sub (quantity invItem0) (item_quantity item),
                        sellingPrice := price item\<rparr>
             else invItem0)
      in invItem1\<lparr>lastUpdated := date transaction\<rparr>)"

text \<open>
  \<open>invItem.save()\<close> validates the document against \<open>InventorySchema\<close> first: \<open>id\<close> and
  \<open>name\<close> are \<open>required\<close> strings, which an empty string does not satisfy, and a number
  path refuses \<open>NaN\<close> (the cast fails). A refused save throws, and the \<open>catch\<close> of the
  handler answers with status 500. An accepted save writes the document under its id.
  Failures of the storage layer other than a refused document are outside the model.
\<close>

definition validate :: "InventoryItem \<Rightarrow> bool" where
  "validate doc =
     (inv_id doc \<noteq> [] \<and> name doc \<noteq> [] \<and>
      quantity doc \<noteq> NaN \<and> averageCost doc \<noteq> NaN \<and> sellingPrice doc \<noteq> NaN)"

definition server_item_step ::
  "(string \<rightharpoonup> InventoryItem) \<Rightarrow> Invoice \<Rightarrow> LineItem \<Rightarrow> error + (string \<rightharpoonup> InventoryItem)" where
  "server_item_step Inventory transaction item =
     (let productId = toLowerCase (trim (description item));
          invItem = invItem_of Inventory transaction item
      in if validate invItem then Inr (Inventory(productId \<mapsto> invItem))
         else Inl ValidationError)"

text \<open>
  The loop saves line after line. The first refused save leaves the loop by its exception:
  the lines before it stay saved, the lines after it are not looked at.
\<close>

fun save_items ::
  "(string \<rightharpoonup> InventoryItem) \<Rightarrow> Invoice \<Rightarrow> LineItem list \<Rightarrow>
   (string \<rightharpoonup> InventoryItem) \<times> error option" where
  "save_items Inventory transaction [] = (Inventory, None)"
| "save_items Inventory transaction (item # rest) =
     (case server_item_step Inventory transaction item of
        Inl err \<Rightarrow> (Inventory, Some err)
      | Inr saved \<Rightarrow> save_items saved transaction rest)"

text \<open>
  \<open>Transaction.findOneAndUpdate({id}, transaction, {new: true, upsert: true})\<close>: the
  update sets the fields the body carries; \<open>notes\<close>, the one optional field of the body,
  keeps its stored value when the body has none. The result is the document after the
  update. This call runs no validators.
\<close>

definition findOneAndUpdate :: "(string \<rightharpoonup> Invoice) \<Rightarrow> Invoice \<Rightarrow> Invoice" where
  "findOneAndUpdate store transaction =
     (case store (txn_id transaction) of
        None \<Rightarrow> transaction
      | Some old \<Rightarrow>
          transaction\<lparr>txn_notes :=
            (case txn_notes transaction of None \<Rightarrow> txn_notes old | Some n \<Rightarrow> Some n)\<rparr>)"

text \<open>
  \<open>POST /api/transactions\<close>. The inventory is adjusted only for an id that is not in the
  store, and the transaction is stored after the loop: when a save throws, the handler
  answers 500 and the transaction is not stored.
\<close>

definition post_transactions :: "State \<Rightarrow> Invoice \<Rightarrow> State \<times> response" where
  "post_transactions s transaction =
     (let existing = transactions s (txn_id transaction);
          (Inventory, thrown) =
            (if existing = None
             then save_items (inventory s) transaction (items transaction)
             else (inventory s, None))
      in case thrown of
           Some err \<Rightarrow> (s\<lparr>inventory := Inventory\<rparr>, Status500 err)
         | None \<Rightarrow>
             (let saved = findOneAndUpdate (transactions s) transaction
              in (\<lparr>transactions = (transactions s)(txn_id transaction \<mapsto> saved),
                   inventory = Inventory\<rparr>,
                  TransactionJson saved)))"

definition delete_transactions :: "State \<Rightarrow> string \<Rightarrow> State \<times> response" where
  "delete_transactions s i = (s\<lparr>transactions := (transactions s)(i := None)\<rparr>, SuccessJson True)"

text \<open>
  The server started on empty collections, a history submitted to it in order, and the
  responses it gives.
\<close>

definition empty_state :: State where
  "empty_state = \<lparr>transactions = Map.empty, inventory = Map.empty\<rparr>"

definition submit_all :: "State \<Rightarrow> Invoice list \<Rightarrow> State" where
  "submit_all s ts = foldl (\<lambda>s t. fst (post_transactions s t)) s ts"

fun submit_responses :: "State \<Rightarrow> Invoice list \<Rightarrow> response list" where
  "submit_responses s [] = []"
| "submit_responses s (t # ts) =
     snd (post_transactions s t) # submit_responses (fst (post_transactions s t)) ts"

section \<open>Client: the derive-inventory effect of \<open>App\<close>\<close>

text \<open>
  \<open>newInventory\<close> is a plain object, so a read of \<open>newInventory[key]\<close> finds an own
  property, or a property inherited from \<open>Object.prototype\<close>, or \<open>undefined\<close>. A key is
  lower-cased, and the inherited names without a capital are \<open>constructor\<close> (the function
  \<open>Object\<close>) and \<open>__proto__\<close> (the object \<open>Object.prototype\<close>): both are truthy, so the
  test \<open>!newInventory[key]\<close> fails for them, no entry is created, and the reads and writes
  of the iteration land on \<open>Object\<close> or \<open>Object.prototype\<close>, not on \<open>newInventory\<close>.
  What these writes leave behind that a later key can reach is \<open>Object.prototype.quantity\<close>,
  which is \<open>NaN\<close> and so falsy: the key \<open>quantity\<close> is \<open>Undefined\<close> like any other.
\<close>

datatype property = Own InventoryItem | Inherited | Undefined

definition inherited :: "string \<Rightarrow> bool" where
  "inherited key = (key = ''constructor'' \<or> key = ''__proto__'')"

definition get_property :: "(string \<rightharpoonup> InventoryItem) \<Rightarrow> string \<Rightarrow> property" where
  "get_property newInventory key =
     (case newInventory key of
        Some e \<Rightarrow> Own e
      | None \<Rightarrow> if inherited key then Inherited else Undefined)"

text \<open>
  The body of \<open>inv.items.forEach\<close>; the transaction \<open>inv\<close> of the source is \<open>invoice\<close>
  here. The client writes the fresh item into the object first and then updates the entry
  under \<open>key\<close> in place; \<open>modify\<close> is that update, and it leaves the map as it is when
  the key is no own property (the write lands on the inherited object).
\<close>

definition modify :: "('k \<rightharpoonup> 'v) \<Rightarrow> 'k \<Rightarrow> ('v \<Rightarrow> 'v) \<Rightarrow> ('k \<rightharpoonup> 'v)" where
  "modify m k f = (case m k of None \<Rightarrow> m | Some v \<Rightarrow> m(k \<mapsto> f v))"

definition client_item_step ::
  "(string \<rightharpoonup> InventoryItem) \<Rightarrow> Invoice \<Rightarrow> LineItem \<Rightarrow> (string \<rightharpoonup> InventoryItem)" where
  "client_item_step newInventory invoice item =
     (let key = toLowerCase (trim (description item));
          m0 = (if get_property newInventory key = Undefined
                then newInventory(key \<mapsto>
                       \<lparr>inv_id = key, name = description item, quantity = Finite 0,
                        averageCost = Finite 0, sellingPrice = Finite 0,
                        lastUpdated = date invoice\<rparr>)
                else newInventory);
          m1 =
            (if txn_type invoice = PURCHASE then
               (let currentTotalValue =
                      (case m0 key of None \<Rightarrow> NaN
                       | Some e \<Rightarrow> js_mul (quantity e) (averageCost e));
                    newItemsValue = js_mul (item_quantity item) (price item);
                    m' = modify m0 key
                           (\<lambda>e. e\<lparr>quantity := js_add (quantity e) (item_quantity item)\<rparr>)
                in modify m' key
                     (\<lambda>e. if js_gt (quantity e) (Finite 0)
                          then e\<lparr>averageCost :=
                                 js_div (js_add currentTotalValue newItemsValue) (quantity e)\<rparr>
                          else e))
             else if txn_type invoice = SALE then
               modify
                 (modify m0 key (\<lambda>e. e\<lparr>quantity := js_sub (quantity e) (item_quantity item)\<rparr>))
                 key (\<lambda>e. e\<lparr>sellingPrice := price item\<rparr>)
             else m0)
      in modify m1 key (\<lambda>e. e\<lparr>lastUpdated := date invoice\<rparr>))"

definition client_apply ::
  "(string \<rightharpoonup> InventoryItem) \<Rightarrow> Invoice \<Rightarrow> (string \<rightharpoonup> InventoryItem)" where
  "client_apply newInventory invoice =
     foldl (\<lambda>m item. client_item_step m invoice item) newInventory (items invoice)"

text \<open>
  \<open>[...transactions].sort((a, b) => time a - time b)\<close> is a stable sort by date, as
  \<^const>\<open>sort_key\<close> is. \<open>Object.values(newInventory)\<close> is read as the set of the values.
\<close>

definition deriveInventory_map :: "Invoice list \<Rightarrow> (string \<rightharpoonup> InventoryItem)" where
  "deriveInventory_map txns = foldl client_apply Map.empty (sort_key date txns)"

definition deriveInventory :: "Invoice list \<Rightarrow> InventoryItem set" where
  "deriveInventory txns = ran (deriveInventory_map txns)"

section \<open>Example data\<close>

text \<open>
  The two seed transactions of \<open>App\<close> (a purchase of five laptops, a sale of one), a
  restocking purchase whose description is a differently cased and padded variant, an edit
  of the sale under its id, a purchase and a sale with a line whose description was left
  empty in the form, a sale of a product called Constructor, two purchases of rice whose
  quantities add up to \<open>2^53 + 1\<close>, and the inventory states they are applied to.
\<close>

definition ex_line_purchase :: LineItem where
  "ex_line_purchase =
     \<lparr>item_id = ''i1'', description = ''Laptops'', item_quantity = Finite 5, price = Finite 30000\<rparr>"

definition ex_line_sale :: LineItem where
  "ex_line_sale =
     \<lparr>item_id = ''i2'', description = ''Laptops'', item_quantity = Finite 1, price = Finite 35000\<rparr>"

definition ex_line_restock :: LineItem where
  "ex_line_restock =
     \<lparr>item_id = ''i3'', description = ''  LAPTOPS '', item_quantity = Finite 3,
      price = Finite 34000\<rparr>"

definition ex_line_blank :: LineItem where
  "ex_line_blank =
     \<lparr>item_id = ''i4'', description = '''', item_quantity = Finite 1, price = Finite 0\<rparr>"

definition ex_line_constructor :: LineItem where
  "ex_line_constructor =
     \<lparr>item_id = ''i5'', description = ''Constructor'', item_quantity = Finite 1,
      price = Finite 100\<rparr>"

definition ex_line_bulk :: LineItem where
  "ex_line_bulk =
     \<lparr>item_id = ''i6'', description = ''Rice'', item_quantity = Finite 9007199254740992,
      price = Finite 1\<rparr>"

definition ex_line_grain :: LineItem where
  "ex_line_grain =
     \<lparr>item_id = ''i7'', description = ''Rice'', item_quantity = Finite 1, price = Finite 1\<rparr>"

definition ex_purchase :: Invoice where
  "ex_purchase = \<lparr>txn_id = ''1'', txn_type = PURCHASE, invoiceNumber = ''INV-VENDOR-001'',
     partyName = ''Tech Suppliers Inc'', date = 1707955200000, dueDate = Some 1710460800000,
     status = PAID, items = [ex_line_purchase], totalAmount = Finite 150000, txn_notes = None\<rparr>"

definition ex_sale :: Invoice where
  "ex_sale = \<lparr>txn_id = ''2'', txn_type = SALE, invoiceNumber = ''BILL-0001'',
     partyName = ''Rahul Sharma'', date = 1708387200000, dueDate = Some 1708387200000,
     status = PAID, items = [ex_line_sale], totalAmount = Finite 35000, txn_notes = None\<rparr>"

definition ex_restock :: Invoice where
  "ex_restock = \<lparr>txn_id = ''3'', txn_type = PURCHASE, invoiceNumber = ''INV-VENDOR-002'',
     partyName = ''Tech Suppliers Inc'', date = 1708214400000, dueDate = Some 1710720000000,
     status = PENDING, items = [ex_line_restock], totalAmount = Finite 102000, txn_notes = None\<rparr>"

definition ex_sale_edit :: Invoice where
  "ex_sale_edit = ex_sale\<lparr>items :=
     [\<lparr>item_id = ''i2'', description = ''Laptops'', item_quantity = Finite 2,
       price = Finite 36000\<rparr>],
     totalAmount := Finite 72000\<rparr>"

definition ex_purchase_blank :: Invoice where
  "ex_purchase_blank = ex_purchase\<lparr>txn_id := ''4'', items := [ex_line_purchase, ex_line_blank]\<rparr>"

definition ex_sale_blank :: Invoice where
  "ex_sale_blank = ex_sale\<lparr>txn_id := ''5'', items := [ex_line_blank]\<rparr>"

definition ex_sale_constructor :: Invoice where
  "ex_sale_constructor = ex_sale\<lparr>txn_id := ''6'', items := [ex_line_constructor]\<rparr>"

definition ex_bulk :: Invoice where
  "ex_bulk = ex_purchase\<lparr>txn_id := ''7'', items := [ex_line_bulk],
     totalAmount := Finite 9007199254740992\<rparr>"

definition ex_grain :: Invoice where
  "ex_grain = ex_purchase\<lparr>txn_id := ''8'', items := [ex_line_grain], totalAmount := Finite 1\<rparr>"

definition ex_stock :: InventoryItem where
  "ex_stock = \<lparr>inv_id = ''laptops'', name = ''Laptops'', quantity = Finite 5,
     averageCost = Finite 30000, sellingPrice = Finite 0, lastUpdated = 1707955200000\<rparr>"

definition ex_oversold :: InventoryItem where
  "ex_oversold = \<lparr>inv_id = ''laptops'', name = ''Laptops'', quantity = Finite (- 3),
     averageCost = Finite 30000, sellingPrice = Finite 35000, lastUpdated = 1707955200000\<rparr>"

definition ex_inventory :: "string \<rightharpoonup> InventoryItem" where
  "ex_inventory = [''laptops'' \<mapsto> ex_stock]"

definition ex_inventory_oversold :: "string \<rightharpoonup> InventoryItem" where
  "ex_inventory_oversold = [''laptops'' \<mapsto> ex_oversold]"

definition ex_after_sale :: State where
  "ex_after_sale = fst (post_transactions empty_state ex_sale)"

section \<open>Rounding to a double\<close>

lemma bitlen_bounds:
  "0 < n \<Longrightarrow> 1 \<le> bitlen n \<and> 2 ^ nat (bitlen n - 1) \<le> n \<and> n < 2 ^ nat (bitlen n)"
proof (induction n rule: bitlen.induct)
  case (1 n)
  show ?case
  proof (cases "n = 1")
    case True
    have "bitlen 1 = 1 + bitlen 0" by (subst bitlen.simps) simp
    also have "bitlen 0 = 0" by (subst bitlen.simps) simp
    finally show ?thesis using True by simp
  next
    case False
    with "1.prems" have half: "0 < n div 2" by simp
    then have IH: "1 \<le> bitlen (n div 2)" "2 ^ nat (bitlen (n div 2) - 1) \<le> n div 2"
      "n div 2 < 2 ^ nat (bitlen (n div 2))"
      using "1.IH" "1.prems" by simp_all
    have b: "bitlen n = 1 + bitlen (n div 2)"
      using "1.prems" by (subst bitlen.simps) simp
    define c where "c = bitlen (n div 2)"
    have c: "1 \<le> c" "2 ^ nat (c - 1) \<le> n div 2" "n div 2 < 2 ^ nat c" "bitlen n = 1 + c"
      using IH b by (simp_all add: c_def)
    have e1: "nat c = Suc (nat (c - 1))" and e2: "nat (1 + c) = Suc (nat c)"
      using c(1) by simp_all
    have "(2::int) ^ nat c = 2 * 2 ^ nat (c - 1)" by (subst e1) simp
    also have "\<dots> \<le> n" using c(2) by simp
    finally have lower: "(2::int) ^ nat c \<le> n" .
    have "n < 2 * 2 ^ nat c" using c(3) by simp
    also have "\<dots> = 2 ^ nat (1 + c)" by (subst e2) simp
    finally have upper: "n < 2 ^ nat (1 + c)" .
    show ?thesis using c(1) lower upper by (simp add: c(4))
  qed
qed

lemma bitlen_eq:
  assumes "2 ^ nat k \<le> n" and "n < 2 ^ nat (k + 1)" and "0 \<le> k"
  shows "bitlen n = k + 1"
proof -
  have pos: "0 < n" using assms(1) by (smt (verit) zero_less_power)
  note b = bitlen_bounds [OF pos]
  have "\<not> bitlen n \<le> k"
  proof
    assume "bitlen n \<le> k"
    then have "(2::int) ^ nat (bitlen n) \<le> 2 ^ nat k" by (intro power_increasing) simp_all
    with b assms(1) show False by simp
  qed
  moreover have "\<not> k + 2 \<le> bitlen n"
  proof
    assume "k + 2 \<le> bitlen n"
    then have "(2::int) ^ nat (k + 1) \<le> 2 ^ nat (bitlen n - 1)"
      using assms(3) by (intro power_increasing) simp_all
    with b assms(2) show False by simp
  qed
  ultimately show ?thesis by simp
qed

lemma round_half_even_int: "round_half_even (of_int j) = j"
  by (simp add: round_half_even_def)

lemma round_half_even_half:
  "round_half_even (of_int z + 1 / 2) = (if even z then z else z + 1)"
proof -
  have "\<lfloor>(of_int z + 1 / 2 :: rat)\<rfloor> = z"
    by (rule floor_unique) simp_all
  then show ?thesis by (simp add: round_half_even_def Let_def)
qed

lemma exponent_int:
  assumes "1 \<le> n"
  shows "exponent (of_int n) = bitlen n - 1"
  using assms by (simp add: exponent_def)

lemma round_double_int:
  assumes "r \<in> \<int>" and "\<bar>r\<bar> \<le> 2 ^ 53"
  shows "round_double r = Finite r"
proof (cases "r = 0")
  case True
  then show ?thesis by (simp add: round_double_def)
next
  case False
  from assms(1) obtain z where r: "r = of_int z" by (auto elim: Ints_cases)
  define n where "n = \<bar>z\<bar>"
  have a: "\<bar>r\<bar> = of_int n" by (simp add: r n_def)
  have npos: "1 \<le> n" using False r by (simp add: n_def)
  have nle: "n \<le> 2 ^ 53"
  proof -
    have "(of_int n :: rat) \<le> of_int (2 ^ 53)" using assms(2) a by simp
    then show ?thesis by (simp only: of_int_le_iff)
  qed
  define k where "k = bitlen n - 1"
  have bounds: "0 \<le> k" "2 ^ nat k \<le> n" "n < 2 ^ nat (k + 1)"
    using bitlen_bounds [of n] npos by (simp_all add: k_def)
  have kle: "k \<le> 53"
  proof (rule ccontr)
    assume "\<not> k \<le> 53"
    then have "54 \<le> nat k" by simp
    then have "(2::int) ^ 54 \<le> 2 ^ nat k" by (intro power_increasing) simp_all
    with bounds(2) nle show False by simp
  qed
  have e: "max (exponent \<bar>r\<bar>) (- 1022) = k"
    using npos bounds(1) by (simp add: a exponent_int k_def)
  have quot: "\<exists>j. \<bar>r\<bar> / pow2 (k - 52) = of_int j"
  proof (cases "k \<le> 52")
    case True
    then have "pow2 (k - 52) = 1 / 2 ^ nat (52 - k)"
      by (cases "k = 52") (simp_all add: pow2_def)
    then have "\<bar>r\<bar> / pow2 (k - 52) = of_int (n * 2 ^ nat (52 - k))"
      by (simp add: a)
    then show ?thesis by blast
  next
    case False
    with kle have k53: "k = 53" by simp
    with bounds(2) nle have "n = 2 ^ 53" by simp
    then have "\<bar>r\<bar> / pow2 (k - 52) = of_int (2 ^ 52)"
      by (simp add: a k53 pow2_def)
    then show ?thesis by blast
  qed
  then obtain j where j: "\<bar>r\<bar> / pow2 (k - 52) = of_int j" by blast
  have ulp_pos: "0 < pow2 (k - 52)" by (simp add: pow2_def)
  have "\<bar>r\<bar> = of_int j * pow2 (k - 52)"
    using j ulp_pos by (simp add: field_simps)
  then have m: "of_int (round_half_even (\<bar>r\<bar> / pow2 (k - 52))) * pow2 (k - 52) = \<bar>r\<bar>"
    unfolding j round_half_even_int by simp
  have small: "\<not> pow2 1024 \<le> \<bar>r\<bar>"
  proof -
    have "(2::rat) ^ 53 < 2 ^ 1024" by (intro power_strict_increasing) simp_all
    with assms(2) show ?thesis by (simp add: pow2_def)
  qed
  have "round_double r = Finite (if 0 < r then \<bar>r\<bar> else - \<bar>r\<bar>)"
    unfolding round_double_def Let_def e m using False small by presburger
  then show ?thesis by (simp add: abs_if)
qed

lemma round_double_numeral [simp]:
  "numeral k \<le> (2::rat) ^ 53 \<Longrightarrow> round_double (numeral k) = Finite (numeral k)"
  "numeral k \<le> (2::rat) ^ 53 \<Longrightarrow> round_double (- numeral k) = Finite (- numeral k)"
  "round_double 0 = Finite 0"
  "round_double 1 = Finite 1"
  "round_double (- 1) = Finite (- 1)"
  by (simp_all add: round_double_int)

lemma round_double_not_NaN [simp]: "round_double r \<noteq> NaN"
  by (simp add: round_double_def Let_def)

lemma round_double_neg: "round_double (- r) = js_neg (round_double r)"
  by (simp add: round_double_def Let_def)

lemma round_double_2_53_plus_1: "round_double 9007199254740993 = Finite 9007199254740992"
proof -
  have "bitlen 9007199254740993 = 53 + 1"
    by (rule bitlen_eq) simp_all
  then have e: "exponent 9007199254740993 = 53"
    by (simp add: exponent_def)
  have "(9007199254740993 :: rat) / 2 = of_int 4503599627370496 + 1 / 2" by simp
  then have r: "round_half_even (9007199254740993 / 2) = 4503599627370496"
    by (simp only: round_half_even_half) simp
  show ?thesis
    by (simp add: round_double_def Let_def e pow2_def r)
qed

lemma js_examples:
  "js_add (Finite 5) (Finite 3) = Finite 8"
  "js_div (Finite 252000) (Finite 8) = Finite 31500"
  "js_mul (Finite 5) (Finite 30000) = Finite 150000"
  "js_sub (Finite 0) (Finite 1) = Finite (- 1)"
  "js_add (Finite (2 ^ 53)) (Finite 1) = Finite (2 ^ 53)"
  by (simp_all add: js_sub_def round_double_2_53_plus_1)

lemma js_sub_zero:
  "is_double q \<Longrightarrow> js_sub (Finite 0) q = js_neg q"
  by (cases q) (simp_all add: js_sub_def is_double_def round_double_neg)

lemma js_sub_zero_NaN: "js_sub (Finite 0) q = NaN \<longleftrightarrow> q = NaN"
  by (cases q) (simp_all add: js_sub_def)

lemma representableD: "representable r \<Longrightarrow> round_double r = Finite r"
  by (simp add: representable_def)

lemma representable_int: "r \<in> \<int> \<Longrightarrow> \<bar>r\<bar> \<le> 2 ^ 53 \<Longrightarrow> representable r"
  by (simp add: representable_def round_double_int)

section \<open>The product key\<close>

lemma toLowerCase_char_idem: "toLowerCase_char (toLowerCase_char c) = toLowerCase_char c"
proof -
  have lt: "(of_char c :: nat) < 256" by simp 
  show ?thesis
    using lt by (auto simp: toLowerCase_char_def Let_def)
qed

lemma isWhiteSpace_toLowerCase_char: "isWhiteSpace (toLowerCase_char c) = isWhiteSpace c"
  by (auto simp: toLowerCase_char_def Let_def isWhiteSpace_def)

lemma toLowerCase_idem: "toLowerCase (toLowerCase s) = toLowerCase s"
  by (simp add: toLowerCase_def toLowerCase_char_idem)

lemma dropWhile_toLowerCase:
  "dropWhile isWhiteSpace (map toLowerCase_char s) = map toLowerCase_char (dropWhile isWhiteSpace s)"
  by (induction s) (auto simp: isWhiteSpace_toLowerCase_char)

lemma trim_toLowerCase: "trim (toLowerCase s) = toLowerCase (trim s)"
  by (simp add: trim_def toLowerCase_def dropWhile_toLowerCase rev_map)

lemma dropWhile_trimmed:
  "dropWhile P (rev (dropWhile P (rev (dropWhile P xs)))) = rev (dropWhile P (rev (dropWhile P xs)))"
proof -
  define ys where "ys = dropWhile P xs"
  define zs where "zs = rev (dropWhile P (rev ys))"
  have "rev ys = takeWhile P (rev ys) @ dropWhile P (rev ys)" by simp
  then have "rev (rev ys) = rev (dropWhile P (rev ys)) @ rev (takeWhile P (rev ys))"
    by (metis rev_append)
  then have split: "ys = zs @ rev (takeWhile P (rev ys))" by (simp add: zs_def)
  have "dropWhile P zs = zs"
  proof (cases zs)
    case Nil
    then show ?thesis by simp
  next
    case (Cons z zs')
    with split have "ys = z # (zs' @ rev (takeWhile P (rev ys)))" by simp
    then have "hd ys = z" and "ys \<noteq> []" by (metis list.sel(1), metis list.distinct(1))
    then have "\<not> P z" unfolding ys_def using hd_dropWhile [of P xs] by auto
    with Cons show ?thesis by simp
  qed
  then show ?thesis by (simp add: zs_def ys_def)
qed

lemma trim_idem: "trim (trim s) = trim s"
  by (simp add: trim_def dropWhile_trimmed)

lemma trim_padding:
  assumes "\<forall>c\<in>set w1. isWhiteSpace c" and "\<forall>c\<in>set w2. isWhiteSpace c"
  shows "trim (w1 @ s @ w2) = trim s"
proof -
  have front: "dropWhile isWhiteSpace (w1 @ s @ w2) = dropWhile isWhiteSpace (s @ w2)"
    using assms(1) by (simp add: dropWhile_append2)
  have rear: "dropWhile isWhiteSpace (rev w2 @ xs) = dropWhile isWhiteSpace xs" for xs
    by (rule dropWhile_append2) (use assms(2) in simp)
  show ?thesis
  proof (cases "\<forall>c\<in>set s. isWhiteSpace c")
    case True
    then have "dropWhile isWhiteSpace (s @ w2) = []" and "dropWhile isWhiteSpace s = []"
      using assms(2) by auto
    with front show ?thesis by (simp only: trim_def rev.simps dropWhile.simps)
  next
    case False
    then obtain c where "c \<in> set s" and "\<not> isWhiteSpace c" by blast
    then have "dropWhile isWhiteSpace (s @ w2) = dropWhile isWhiteSpace s @ w2"
      by (rule dropWhile_append1)
    with front rear show ?thesis by (simp add: trim_def)
  qed
qed

lemma productKey_idem: "productKey (productKey s) = productKey s"
  by (simp add: productKey_def trim_toLowerCase trim_idem toLowerCase_idem)

lemma description_nonempty: "productKey d \<noteq> [] \<Longrightarrow> d \<noteq> []"
  by (auto simp: productKey_def trim_def toLowerCase_def)

text \<open>
  On descriptions of code units below 256 the product key is idempotent: the key of a key
  is that key. Two such descriptions have the same key exactly when they are equal after
  trimming and lower-casing; so have two whose cores differ only in the case of their
  letters, each padded at both ends with white space.
\<close>

theorem productKey_idempotent_congruent:
  "productKey (productKey s) = productKey s \<and>
   (productKey a = productKey b \<longleftrightarrow> toLowerCase (trim a) = toLowerCase (trim b)) \<and>
   ((\<forall>c \<in> set w1 \<union> set w2 \<union> set w3 \<union> set w4. isWhiteSpace c) \<and> toLowerCase a = toLowerCase b
      \<longrightarrow> productKey (w1 @ a @ w2) = productKey (w3 @ b @ w4))"
proof (intro conjI impI)
  show "productKey (productKey s) = productKey s" by (rule productKey_idem)
  show "productKey a = productKey b \<longleftrightarrow> toLowerCase (trim a) = toLowerCase (trim b)"
    by (simp add: productKey_def)
next
  assume h: "(\<forall>c \<in> set w1 \<union> set w2 \<union> set w3 \<union> set w4. isWhiteSpace c) \<and> toLowerCase a = toLowerCase b"
  then have "trim (w1 @ a @ w2) = trim a" and "trim (w3 @ b @ w4) = trim b"
    by (simp_all add: trim_padding)
  then have "productKey (w1 @ a @ w2) = trim (toLowerCase a)"
    and "productKey (w3 @ b @ w4) = trim (toLowerCase b)"
    by (simp_all add: productKey_def trim_toLowerCase)
  with h show "productKey (w1 @ a @ w2) = productKey (w3 @ b @ w4)" by simp
qed

theorem productKey_idempotent_congruent_witness:
  "list_all isWhiteSpace (''  '' @ '' '' @ [] @ [CHR 0x09]) \<and>
   toLowerCase ''Laptop'' = toLowerCase ''lAPTOP'' \<and>
   productKey (''  '' @ ''Laptop'' @ '' '') = productKey ([] @ ''lAPTOP'' @ [CHR 0x09]) \<and>
   productKey (''  '' @ ''Laptop'' @ '' '') = ''laptop''"
proof -
  have ws: "list_all isWhiteSpace (''  '' @ '' '' @ [] @ [CHR 0x09])"
    by (simp add: isWhiteSpace_def)
  then have ws': "\<forall>c \<in> set ''  '' \<union> set '' '' \<union> set [] \<union> set [CHR 0x09]. isWhiteSpace c"
    by (simp add: list_all_iff)
  have lc: "toLowerCase ''Laptop'' = toLowerCase ''lAPTOP''" by code_simp
  have k: "productKey (''  '' @ ''Laptop'' @ '' '') = ''laptop''" by code_simp
  have "productKey (''  '' @ ''Laptop'' @ '' '') = productKey ([] @ ''lAPTOP'' @ [CHR 0x09])"
    using ws' lc
      productKey_idempotent_congruent [where a = "''Laptop''" and b = "''lAPTOP''"
        and ?w1.0 = "''  ''" and ?w2.0 = "'' ''" and ?w3.0 = "[]" and ?w4.0 = "[CHR 0x09]"]
    by blast
  with ws lc k show ?thesis by blast
qed

section \<open>One line item: the server step and the client step\<close>

lemma invItem_of_sale_new:
  "txn_type t = SALE \<Longrightarrow> m (productKey (description i)) = None \<Longrightarrow>
   invItem_of m t i =
     \<lparr>inv_id = productKey (description i), name = description i,
      quantity = js_sub (Finite 0) (item_quantity i), averageCost = Finite 0,
      sellingPrice = price i, lastUpdated = date t\<rparr>"
  by (simp add: invItem_of_def productKey_def Let_def)

lemma invItem_of_sale_existing:
  "txn_type t = SALE \<Longrightarrow> m (productKey (description i)) = Some e \<Longrightarrow>
   invItem_of m t i =
     e\<lparr>quantity := js_sub (quantity e) (item_quantity i), sellingPrice := price i,
       lastUpdated := date t\<rparr>"
  by (simp add: invItem_of_def productKey_def Let_def)

lemma invItem_of_purchase_new:
  "txn_type t = PURCHASE \<Longrightarrow> m (productKey (description i)) = None \<Longrightarrow>
   invItem_of m t i =
     \<lparr>inv_id = productKey (description i), name = description i,
      quantity = js_add (Finite 0) (item_quantity i),
      averageCost =
        (if js_gt (js_add (Finite 0) (item_quantity i)) (Finite 0)
         then js_div (js_add (js_mul (Finite 0) (Finite 0)) (js_mul (item_quantity i) (price i)))
                (js_add (Finite 0) (item_quantity i))
         else Finite 0),
      sellingPrice = Finite 0, lastUpdated = date t\<rparr>"
  by (simp add: invItem_of_def productKey_def Let_def)

lemma invItem_of_purchase_existing:
  "txn_type t = PURCHASE \<Longrightarrow> m (productKey (description i)) = Some e \<Longrightarrow>
   invItem_of m t i =
     e\<lparr>quantity := js_add (quantity e) (item_quantity i),
       averageCost :=
         (if js_gt (js_add (quantity e) (item_quantity i)) (Finite 0)
          then js_div (js_add (js_mul (quantity e) (averageCost e))
                         (js_mul (item_quantity i) (price i)))
                 (js_add (quantity e) (item_quantity i))
          else averageCost e),
       lastUpdated := date t\<rparr>"
  by (simp add: invItem_of_def productKey_def Let_def)

lemma invItem_of_name_new:
  "m (productKey (description i)) = None \<Longrightarrow> name (invItem_of m t i) = description i"
  by (cases "txn_type t") (simp_all add: invItem_of_def productKey_def Let_def)

lemma invItem_of_name_kept:
  "m (productKey (description i)) = Some e \<Longrightarrow> name (invItem_of m t i) = name e"
  by (cases "txn_type t") (simp_all add: invItem_of_def productKey_def Let_def)

lemma server_item_step_eq:
  "server_item_step m t i =
     (if validate (invItem_of m t i) then Inr (m(productKey (description i) \<mapsto> invItem_of m t i))
      else Inl ValidationError)"
  by (simp add: server_item_step_def productKey_def Let_def)

lemma server_item_step_Inr:
  "server_item_step m t i = Inr m' \<longleftrightarrow>
   validate (invItem_of m t i) \<and> m' = m(productKey (description i) \<mapsto> invItem_of m t i)"
  by (auto simp: server_item_step_eq)

lemma server_item_step_Inl:
  "server_item_step m t i = Inl err \<longleftrightarrow> \<not> validate (invItem_of m t i)"
  by (cases err) (auto simp: server_item_step_eq)

lemma get_property_Inherited:
  "get_property m k = Inherited \<longleftrightarrow> m k = None \<and> inherited k"
  by (simp add: get_property_def split: option.splits)

lemma get_property_Undefined:
  "get_property m k = Undefined \<longleftrightarrow> m k = None \<and> \<not> inherited k"
  by (simp add: get_property_def split: option.splits)

lemma client_item_step_eq:
  "client_item_step m t i =
     (if get_property m (productKey (description i)) = Inherited then m
      else m(productKey (description i) \<mapsto> invItem_of m t i))"
  by (cases "txn_type t"; cases "m (toLowerCase (trim (description i)))")
     (simp_all add: client_item_step_def invItem_of_def get_property_def modify_def Let_def
        productKey_def)

lemma client_item_step_present:
  "m (productKey (description i)) = Some e \<Longrightarrow>
   client_item_step m t i = m(productKey (description i) \<mapsto> invItem_of m t i)"
  by (simp add: client_item_step_eq get_property_Inherited)

lemma client_item_step_created:
  "\<not> inherited (productKey (description i)) \<Longrightarrow>
   client_item_step m t i = m(productKey (description i) \<mapsto> invItem_of m t i)"
  by (simp add: client_item_step_eq get_property_Inherited)

lemma client_item_step_inherited:
  "m (productKey (description i)) = None \<Longrightarrow> inherited (productKey (description i)) \<Longrightarrow>
   client_item_step m t i = m"
  by (simp add: client_item_step_eq get_property_Inherited)

section \<open>One submission\<close>

lemma post_transactions_known:
  "transactions s (txn_id t) = Some old \<Longrightarrow>
   post_transactions s t =
     (\<lparr>transactions = (transactions s)(txn_id t \<mapsto> findOneAndUpdate (transactions s) t),
       inventory = inventory s\<rparr>,
      TransactionJson (findOneAndUpdate (transactions s) t))"
  by (simp add: post_transactions_def Let_def)

lemma post_transactions_accepted:
  assumes "transactions s (txn_id t) = None"
    and "snd (save_items (inventory s) t (items t)) = None"
  shows "post_transactions s t =
     (\<lparr>transactions = (transactions s)(txn_id t \<mapsto> t),
       inventory = fst (save_items (inventory s) t (items t))\<rparr>,
      TransactionJson t)"
proof -
  obtain m' where "save_items (inventory s) t (items t) = (m', None)"
    using assms(2) by (metis prod.collapse)
  with assms(1) show ?thesis
    by (simp add: post_transactions_def findOneAndUpdate_def Let_def)
qed

lemma post_transactions_refused:
  assumes "transactions s (txn_id t) = None"
    and "snd (save_items (inventory s) t (items t)) = Some err"
  shows "post_transactions s t =
     (s\<lparr>inventory := fst (save_items (inventory s) t (items t))\<rparr>, Status500 err)"
proof -
  obtain m' where "save_items (inventory s) t (items t) = (m', Some err)"
    using assms(2) by (metis prod.collapse)
  with assms(1) show ?thesis
    by (simp add: post_transactions_def Let_def)
qed

lemma submit_all_Cons: "submit_all s (t # ts) = submit_all (fst (post_transactions s t)) ts"
  by (simp add: submit_all_def)

lemma submit_all_Nil: "submit_all s [] = s"
  by (simp add: submit_all_def)

section \<open>The example data, evaluated\<close>

lemmas ex_defs = ex_purchase_def ex_sale_def ex_restock_def ex_line_purchase_def ex_line_sale_def
  ex_line_restock_def ex_stock_def ex_oversold_def ex_sale_edit_def ex_line_blank_def
  ex_line_constructor_def ex_line_bulk_def ex_line_grain_def ex_purchase_blank_def
  ex_sale_blank_def ex_sale_constructor_def ex_bulk_def ex_grain_def ex_inventory_def
  ex_inventory_oversold_def

lemma ex_keys:
  "toLowerCase (trim ''Laptops'') = ''laptops''"
  "toLowerCase (trim ''  LAPTOPS '') = ''laptops''"
  "toLowerCase (trim '''') = ''''"
  "toLowerCase (trim ''Constructor'') = ''constructor''"
  "toLowerCase (trim ''Rice'') = ''rice''"
  by code_simp+

lemma ex_product_keys:
  "productKey (description ex_line_purchase) = ''laptops''"
  "productKey (description ex_line_sale) = ''laptops''"
  "productKey (description ex_line_restock) = ''laptops''"
  "productKey (description ex_line_blank) = []"
  "productKey (description ex_line_constructor) = ''constructor''"
  by (simp_all add: ex_defs ex_keys productKey_def)

lemmas run_defs = submit_all_def post_transactions_def server_item_step_def invItem_of_def
  validate_def findOneAndUpdate_def empty_state_def Let_def js_sub_def
  deriveInventory_map_def client_apply_def client_item_step_def get_property_def inherited_def
  modify_def

lemma ex_after_sale_eq:
  "ex_after_sale =
     \<lparr>transactions = [''2'' \<mapsto> ex_sale],
      inventory = [''laptops'' \<mapsto>
        \<lparr>inv_id = ''laptops'', name = ''Laptops'', quantity = Finite (- 1),
         averageCost = Finite 0, sellingPrice = Finite 35000, lastUpdated = 1708387200000\<rparr>]\<rparr>"
  by (simp add: ex_after_sale_def run_defs ex_defs ex_keys)

section \<open>The response of a submission\<close>

text \<open>
  The response of \<open>POST /api/transactions\<close> is the saved transaction alone. The first
  submission of a transaction and its re-submission answer alike, although the id was
  absent before the first and present before the second.
\<close>

theorem response_hides_isNew_counterexample:
  "transactions empty_state (txn_id ex_sale) = None \<and>
   transactions (fst (post_transactions empty_state ex_sale)) (txn_id ex_sale) = Some ex_sale \<and>
   snd (post_transactions empty_state ex_sale) = TransactionJson ex_sale \<and>
   snd (post_transactions (fst (post_transactions empty_state ex_sale)) ex_sale) =
     TransactionJson ex_sale"
  by (simp add: run_defs ex_defs ex_keys)

text \<open>
  Claim C2, amended. An accepted submission returns the stored transaction record, and that
  record is what the store holds under the id afterwards. Whether the id existed beforehand
  is not part of the response; it only decides what happens to the inventory: a known id
  leaves it as it was, a new id saves the line items into it. A submission with a line the
  storage refuses answers with status 500, stores no transaction and leaves the lines
  before the refused one saved.
\<close>

theorem post_transactions_response:
  "(transactions s (txn_id t) \<noteq> None \<longrightarrow>
      post_transactions s t =
        (\<lparr>transactions = (transactions s)(txn_id t \<mapsto> findOneAndUpdate (transactions s) t),
          inventory = inventory s\<rparr>,
         TransactionJson (findOneAndUpdate (transactions s) t))) \<and>
   (transactions s (txn_id t) = None \<and> snd (save_items (inventory s) t (items t)) = None \<longrightarrow>
      post_transactions s t =
        (\<lparr>transactions = (transactions s)(txn_id t \<mapsto> t),
          inventory = fst (save_items (inventory s) t (items t))\<rparr>,
         TransactionJson t)) \<and>
   (transactions s (txn_id t) = None \<and> snd (save_items (inventory s) t (items t)) = Some err \<longrightarrow>
      post_transactions s t =
        (s\<lparr>inventory := fst (save_items (inventory s) t (items t))\<rparr>, Status500 err)) \<and>
   (snd (post_transactions s t) = TransactionJson saved \<longrightarrow>
      transactions (fst (post_transactions s t)) (txn_id t) = Some saved)"
proof (intro conjI impI)
  assume "transactions s (txn_id t) \<noteq> None"
  then obtain old where "transactions s (txn_id t) = Some old" by auto
  then show "post_transactions s t =
        (\<lparr>transactions = (transactions s)(txn_id t \<mapsto> findOneAndUpdate (transactions s) t),
          inventory = inventory s\<rparr>,
         TransactionJson (findOneAndUpdate (transactions s) t))"
    by (rule post_transactions_known)
next
  assume "transactions s (txn_id t) = None \<and> snd (save_items (inventory s) t (items t)) = None"
  then show "post_transactions s t =
        (\<lparr>transactions = (transactions s)(txn_id t \<mapsto> t),
          inventory = fst (save_items (inventory s) t (items t))\<rparr>,
         TransactionJson t)"
    by (simp add: post_transactions_accepted)
next
  assume "transactions s (txn_id t) = None \<and> snd (save_items (inventory s) t (items t)) = Some err"
  then show "post_transactions s t =
        (s\<lparr>inventory := fst (save_items (inventory s) t (items t))\<rparr>, Status500 err)"
    by (simp add: post_transactions_refused)
next
  assume answer: "snd (post_transactions s t) = TransactionJson saved"
  show "transactions (fst (post_transactions s t)) (txn_id t) = Some saved"
  proof (cases "transactions s (txn_id t)")
    case (Some old)
    with answer show ?thesis by (simp add: post_transactions_known)
  next
    case None
    show ?thesis
    proof (cases "snd (save_items (inventory s) t (items t))")
      case (Some err')
      with None answer show ?thesis by (simp add: post_transactions_refused)
    next
      case accepted: None
      with None answer show ?thesis by (simp add: post_transactions_accepted)
    qed
  qed
qed

theorem post_transactions_response_witness:
  "transactions empty_state (txn_id ex_sale) = None \<and>
   snd (save_items (inventory empty_state) ex_sale (items ex_sale)) = None \<and>
   post_transactions empty_state ex_sale = (ex_after_sale, TransactionJson ex_sale) \<and>
   transactions ex_after_sale (txn_id ex_sale) = Some ex_sale \<and>
   transactions ex_after_sale (txn_id ex_sale_edit) \<noteq> None \<and>
   post_transactions ex_after_sale ex_sale_edit =
     (ex_after_sale\<lparr>transactions := [''2'' \<mapsto> ex_sale_edit]\<rparr>, TransactionJson ex_sale_edit) \<and>
   transactions empty_state (txn_id ex_purchase_blank) = None \<and>
   snd (save_items (inventory empty_state) ex_purchase_blank (items ex_purchase_blank)) =
     Some ValidationError \<and>
   post_transactions empty_state ex_purchase_blank =
     (\<lparr>transactions = Map.empty, inventory = [''laptops'' \<mapsto> ex_stock]\<rparr>,
      Status500 ValidationError)"
proof -
  have new: "transactions empty_state (txn_id ex_sale) = None"
    "transactions empty_state (txn_id ex_purchase_blank) = None"
    by (simp_all add: empty_state_def)
  have accepted: "snd (save_items (inventory empty_state) ex_sale (items ex_sale)) = None"
    by (simp add: run_defs ex_defs ex_keys)
  have refused:
    "snd (save_items (inventory empty_state) ex_purchase_blank (items ex_purchase_blank)) =
     Some ValidationError"
    by (simp add: run_defs ex_defs ex_keys)
  have known: "transactions ex_after_sale (txn_id ex_sale_edit) \<noteq> None"
    by (simp add: ex_after_sale_eq ex_defs)
  have a: "post_transactions empty_state ex_sale = (ex_after_sale, TransactionJson ex_sale)"
  proof -
    from post_transactions_response [where s = empty_state and t = ex_sale] new(1) accepted
    have "post_transactions empty_state ex_sale =
        (\<lparr>transactions = (transactions empty_state)(txn_id ex_sale \<mapsto> ex_sale),
          inventory = fst (save_items (inventory empty_state) ex_sale (items ex_sale))\<rparr>,
         TransactionJson ex_sale)"
      by blast
    then have "snd (post_transactions empty_state ex_sale) = TransactionJson ex_sale"
      by (simp only: snd_conv)
    then show ?thesis
      by (simp only: ex_after_sale_def prod_eq_iff fst_conv snd_conv simp_thms)
  qed
  have stored: "transactions ex_after_sale (txn_id ex_sale) = Some ex_sale"
  proof -
    from a have "snd (post_transactions empty_state ex_sale) = TransactionJson ex_sale"
      by (simp only: snd_conv)
    with post_transactions_response [where s = empty_state and t = ex_sale and saved = ex_sale]
    have "transactions (fst (post_transactions empty_state ex_sale)) (txn_id ex_sale) =
        Some ex_sale"
      by blast
    then show ?thesis by (simp only: ex_after_sale_def)
  qed
  have b: "post_transactions ex_after_sale ex_sale_edit =
     (ex_after_sale\<lparr>transactions := [''2'' \<mapsto> ex_sale_edit]\<rparr>, TransactionJson ex_sale_edit)"
  proof -
    have "findOneAndUpdate (transactions ex_after_sale) ex_sale_edit = ex_sale_edit"
      by (simp add: ex_after_sale_eq findOneAndUpdate_def ex_defs)
    moreover have "(transactions ex_after_sale)(txn_id ex_sale_edit \<mapsto> ex_sale_edit) =
        [''2'' \<mapsto> ex_sale_edit]"
      by (simp add: ex_after_sale_eq ex_defs)
    moreover from post_transactions_response [where s = ex_after_sale and t = ex_sale_edit]
      known
    have "post_transactions ex_after_sale ex_sale_edit =
        (\<lparr>transactions = (transactions ex_after_sale)(txn_id ex_sale_edit \<mapsto>
            findOneAndUpdate (transactions ex_after_sale) ex_sale_edit),
          inventory = inventory ex_after_sale\<rparr>,
         TransactionJson (findOneAndUpdate (transactions ex_after_sale) ex_sale_edit))"
      by blast
    ultimately have "post_transactions ex_after_sale ex_sale_edit =
        (\<lparr>transactions = [''2'' \<mapsto> ex_sale_edit], inventory = inventory ex_after_sale\<rparr>,
         TransactionJson ex_sale_edit)"
      by (simp only:)
    then show ?thesis by simp
  qed
  have c: "post_transactions empty_state ex_purchase_blank =
     (\<lparr>transactions = Map.empty, inventory = [''laptops'' \<mapsto> ex_stock]\<rparr>,
      Status500 ValidationError)"
  proof -
    have "fst (save_items (inventory empty_state) ex_purchase_blank (items ex_purchase_blank)) =
        [''laptops'' \<mapsto> ex_stock]"
      by (simp add: run_defs ex_defs ex_keys)
    moreover from post_transactions_response [where s = empty_state and t = ex_purchase_blank
        and err = ValidationError] new(2) refused
    have "post_transactions empty_state ex_purchase_blank =
        (empty_state\<lparr>inventory :=
           fst (save_items (inventory empty_state) ex_purchase_blank (items ex_purchase_blank))\<rparr>,
         Status500 ValidationError)"
      by blast
    ultimately show ?thesis by (simp add: empty_state_def)
  qed
  from new accepted refused known a stored b c show ?thesis by blast
qed

section \<open>Deleting a transaction\<close>

text \<open>
  Claim C7. Deleting by id removes the record of that id and no other, answers with
  success whether or not a record was there, leaves an id-free store as it was, is
  idempotent, and leaves the inventory unchanged.
\<close>

theorem delete_transactions_frame:
  "transactions (fst (delete_transactions s i)) = (transactions s)(i := None) \<and>
   transactions (fst (delete_transactions s i)) i = None \<and>
   inventory (fst (delete_transactions s i)) = inventory s \<and>
   snd (delete_transactions s i) = SuccessJson True \<and>
   delete_transactions (fst (delete_transactions s i)) i = delete_transactions s i \<and>
   (transactions s i = None \<longrightarrow> delete_transactions s i = (s, SuccessJson True))"
proof -
  have "(transactions s)(i := None) = transactions s" if "transactions s i = None"
    using that by (metis fun_upd_triv)
  then show ?thesis by (simp add: delete_transactions_def)
qed

theorem delete_transactions_frame_witness:
  "transactions empty_state ''2'' = None \<and>
   delete_transactions empty_state ''2'' = (empty_state, SuccessJson True) \<and>
   transactions ex_after_sale ''2'' = Some ex_sale \<and>
   transactions (fst (delete_transactions ex_after_sale ''2'')) ''2'' = None \<and>
   inventory (fst (delete_transactions ex_after_sale ''2'')) = inventory ex_after_sale \<and>
   inventory ex_after_sale ''laptops'' =
     Some \<lparr>inv_id = ''laptops'', name = ''Laptops'', quantity = Finite (- 1),
           averageCost = Finite 0, sellingPrice = Finite 35000, lastUpdated = 1708387200000\<rparr>"
proof -
  have absent: "transactions empty_state ''2'' = None" by (simp add: empty_state_def)
  have present: "transactions ex_after_sale ''2'' = Some ex_sale"
    by (simp add: ex_after_sale_eq)
  have v: "inventory ex_after_sale ''laptops'' =
     Some \<lparr>inv_id = ''laptops'', name = ''Laptops'', quantity = Finite (- 1),
           averageCost = Finite 0, sellingPrice = Finite 35000, lastUpdated = 1708387200000\<rparr>"
    by (simp add: ex_after_sale_eq)
  from delete_transactions_frame [of empty_state "''2''"] absent
  have a: "delete_transactions empty_state ''2'' = (empty_state, SuccessJson True)" by blast
  from delete_transactions_frame [of ex_after_sale "''2''"]
  have b: "transactions (fst (delete_transactions ex_after_sale ''2'')) ''2'' = None"
    "inventory (fst (delete_transactions ex_after_sale ''2'')) = inventory ex_after_sale"
    by blast+
  from absent present v a b show ?thesis by blast
qed

section \<open>What a sale changes\<close>

text \<open>
  A sale of a stocked product also overwrites \<open>lastUpdated\<close>: the stored item was
  last updated at the purchase, and after the sale it carries the date of the sale. So the
  quantity and the selling price are not the only fields that change.
\<close>

theorem sale_changes_lastUpdated_counterexample:
  "txn_type ex_sale = SALE \<and>
   ex_inventory (productKey (description ex_line_sale)) = Some ex_stock \<and>
   map_option lastUpdated (client_item_step ex_inventory ex_sale ex_line_sale ''laptops'') \<noteq>
     Some (lastUpdated ex_stock) \<and>
   lastUpdated ex_stock = 1707955200000 \<and>
   map_option lastUpdated (client_item_step ex_inventory ex_sale ex_line_sale ''laptops'') =
     Some 1708387200000 \<and>
   map_option lastUpdated (inventory (fst (post_transactions
       \<lparr>transactions = Map.empty, inventory = ex_inventory\<rparr> ex_sale)) ''laptops'') =
     Some 1708387200000"
  by (simp add: run_defs ex_defs ex_keys productKey_def)

text \<open>
  Claim C4, amended. For every inventory state and every SALE line item whose key is in the
  state, the step replaces the item under that key by the same item with the quantity
  reduced, the selling price set to the price of the line and \<open>lastUpdated\<close> set to the date
  of the transaction. The average cost, the name and the id of the item stay as they were,
  and so does every other key. The client does this always; the server does it when it
  saves the item, and the save is refused only for a document the schema refuses.
\<close>

theorem sale_frame:
  assumes "txn_type t = SALE" and "m (productKey (description i)) = Some e"
  shows
   "client_item_step m t i = m(productKey (description i) \<mapsto>
      e\<lparr>quantity := js_sub (quantity e) (item_quantity i), sellingPrice := price i,
        lastUpdated := date t\<rparr>) \<and>
    server_item_step m t i =
      (if validate (e\<lparr>quantity := js_sub (quantity e) (item_quantity i), sellingPrice := price i,
                      lastUpdated := date t\<rparr>)
       then Inr (m(productKey (description i) \<mapsto>
              e\<lparr>quantity := js_sub (quantity e) (item_quantity i), sellingPrice := price i,
                lastUpdated := date t\<rparr>))
       else Inl ValidationError) \<and>
    map_option averageCost (client_item_step m t i (productKey (description i))) =
      Some (averageCost e) \<and>
    map_option name (client_item_step m t i (productKey (description i))) = Some (name e) \<and>
    map_option inv_id (client_item_step m t i (productKey (description i))) = Some (inv_id e) \<and>
    (server_item_step m t i = Inr m' \<longrightarrow>
       map_option averageCost (m' (productKey (description i))) = Some (averageCost e) \<and>
       map_option name (m' (productKey (description i))) = Some (name e) \<and>
       map_option inv_id (m' (productKey (description i))) = Some (inv_id e))"
  using assms
  by (auto simp add: client_item_step_present server_item_step_eq invItem_of_sale_existing)

theorem sale_frame_witness:
  "txn_type ex_sale = SALE \<and>
   ex_inventory (productKey (description ex_line_sale)) = Some ex_stock \<and>
   client_item_step ex_inventory ex_sale ex_line_sale =
     [''laptops'' \<mapsto> \<lparr>inv_id = ''laptops'', name = ''Laptops'', quantity = Finite 4,
        averageCost = Finite 30000, sellingPrice = Finite 35000, lastUpdated = 1708387200000\<rparr>] \<and>
   server_item_step ex_inventory ex_sale ex_line_sale =
     Inr [''laptops'' \<mapsto> \<lparr>inv_id = ''laptops'', name = ''Laptops'', quantity = Finite 4,
        averageCost = Finite 30000, sellingPrice = Finite 35000, lastUpdated = 1708387200000\<rparr>]"
proof -
  have sale: "txn_type ex_sale = SALE" by (simp add: ex_sale_def)
  have key: "productKey (description ex_line_sale) = ''laptops''"
    by (simp add: ex_defs ex_keys productKey_def)
  have present: "ex_inventory (productKey (description ex_line_sale)) = Some ex_stock"
    by (simp add: key ex_inventory_def)
  have v: "ex_stock\<lparr>quantity := js_sub (quantity ex_stock) (item_quantity ex_line_sale),
          sellingPrice := price ex_line_sale, lastUpdated := date ex_sale\<rparr> =
        \<lparr>inv_id = ''laptops'', name = ''Laptops'', quantity = Finite 4,
         averageCost = Finite 30000, sellingPrice = Finite 35000, lastUpdated = 1708387200000\<rparr>"
    by (simp add: ex_defs js_sub_def)
  have ok: "validate \<lparr>inv_id = ''laptops'', name = ''Laptops'', quantity = Finite 4,
         averageCost = Finite 30000, sellingPrice = Finite 35000, lastUpdated = 1708387200000\<rparr>"
    by (simp add: validate_def)
  from sale_frame [where t = ex_sale and m = ex_inventory and i = ex_line_sale and e = ex_stock]
    sale present
  have "client_item_step ex_inventory ex_sale ex_line_sale =
      ex_inventory(''laptops'' \<mapsto> \<lparr>inv_id = ''laptops'', name = ''Laptops'', quantity = Finite 4,
         averageCost = Finite 30000, sellingPrice = Finite 35000, lastUpdated = 1708387200000\<rparr>)"
    and "server_item_step ex_inventory ex_sale ex_line_sale =
      Inr (ex_inventory(''laptops'' \<mapsto> \<lparr>inv_id = ''laptops'', name = ''Laptops'',
         quantity = Finite 4, averageCost = Finite 30000, sellingPrice = Finite 35000,
         lastUpdated = 1708387200000\<rparr>))"
    using ok by (simp_all add: v key)
  then show ?thesis using sale present by (simp add: ex_inventory_def)
qed

section \<open>The guard of the average cost\<close>

text \<open>
  Claim C5. In a PURCHASE step the average cost becomes the quotient of the total value by
  the new quantity only when the new quantity is \<open>> 0\<close>, and the divisor is that positive
  quantity. When the new quantity is zero, negative or \<open>NaN\<close> the average cost keeps its
  prior value: the stored one, or 0 for a key that was absent. The item so computed is what
  the server saves and what the client holds for an own or a fresh key.
\<close>

theorem purchase_average_guard:
  assumes "txn_type t = PURCHASE" and "k = productKey (description i)"
  shows
   "(m k = None \<longrightarrow>
       quantity (invItem_of m t i) = js_add (Finite 0) (item_quantity i) \<and>
       averageCost (invItem_of m t i) =
         (if js_gt (js_add (Finite 0) (item_quantity i)) (Finite 0)
          then js_div (js_add (js_mul (Finite 0) (Finite 0)) (js_mul (item_quantity i) (price i)))
                 (js_add (Finite 0) (item_quantity i))
          else Finite 0)) \<and>
    (m k = Some e \<longrightarrow>
       quantity (invItem_of m t i) = js_add (quantity e) (item_quantity i) \<and>
       averageCost (invItem_of m t i) =
         (if js_gt (js_add (quantity e) (item_quantity i)) (Finite 0)
          then js_div (js_add (js_mul (quantity e) (averageCost e))
                         (js_mul (item_quantity i) (price i)))
                 (js_add (quantity e) (item_quantity i))
          else averageCost e)) \<and>
    (m k = Some e \<and> \<not> js_gt (js_add (quantity e) (item_quantity i)) (Finite 0) \<longrightarrow>
       averageCost (invItem_of m t i) = averageCost e) \<and>
    (m k = None \<and> \<not> js_gt (js_add (Finite 0) (item_quantity i)) (Finite 0) \<longrightarrow>
       averageCost (invItem_of m t i) = Finite 0) \<and>
    (server_item_step m t i = Inr m' \<longrightarrow> m' k = Some (invItem_of m t i)) \<and>
    (get_property m k \<noteq> Inherited \<longrightarrow> client_item_step m t i k = Some (invItem_of m t i))"
  using assms
  by (auto simp add: invItem_of_purchase_new invItem_of_purchase_existing server_item_step_Inr
      client_item_step_eq)

theorem purchase_average_guard_witness:
  "txn_type ex_restock = PURCHASE \<and> ''laptops'' = productKey (description ex_line_restock) \<and>
   Map.empty ''laptops'' = (None :: InventoryItem option) \<and>
   js_gt (js_add (Finite 0) (item_quantity ex_line_restock)) (Finite 0) \<and>
   averageCost (invItem_of Map.empty ex_restock ex_line_restock) = Finite 34000 \<and>
   ex_inventory ''laptops'' = Some ex_stock \<and>
   quantity (invItem_of ex_inventory ex_restock ex_line_restock) = Finite 8 \<and>
   averageCost (invItem_of ex_inventory ex_restock ex_line_restock) = Finite 31500 \<and>
   ex_inventory_oversold ''laptops'' = Some ex_oversold \<and>
   \<not> js_gt (js_add (quantity ex_oversold) (item_quantity ex_line_restock)) (Finite 0) \<and>
   quantity (invItem_of ex_inventory_oversold ex_restock ex_line_restock) = Finite 0 \<and>
   averageCost (invItem_of ex_inventory_oversold ex_restock ex_line_restock) = Finite 30000 \<and>
   get_property ex_inventory_oversold ''laptops'' \<noteq> Inherited \<and>
   client_item_step ex_inventory_oversold ex_restock ex_line_restock ''laptops'' =
     Some (invItem_of ex_inventory_oversold ex_restock ex_line_restock) \<and>
   server_item_step ex_inventory_oversold ex_restock ex_line_restock =
     Inr (ex_inventory_oversold(''laptops'' \<mapsto>
            invItem_of ex_inventory_oversold ex_restock ex_line_restock)) \<and>
   (ex_inventory_oversold(''laptops'' \<mapsto>
      invItem_of ex_inventory_oversold ex_restock ex_line_restock)) ''laptops'' =
     Some (invItem_of ex_inventory_oversold ex_restock ex_line_restock)"
proof -
  have purchase: "txn_type ex_restock = PURCHASE" by (simp add: ex_restock_def)
  have key: "''laptops'' = productKey (description ex_line_restock)"
    by (simp add: ex_product_keys)
  have fresh: "Map.empty ''laptops'' = (None :: InventoryItem option)" by simp
  have stocked: "ex_inventory ''laptops'' = Some ex_stock" by (simp add: ex_inventory_def)
  have oversold: "ex_inventory_oversold ''laptops'' = Some ex_oversold"
    by (simp add: ex_inventory_oversold_def)
  have gt: "js_gt (js_add (Finite 0) (item_quantity ex_line_restock)) (Finite 0)"
    by (simp add: ex_defs)
  have le: "\<not> js_gt (js_add (quantity ex_oversold) (item_quantity ex_line_restock)) (Finite 0)"
    by (simp add: ex_defs)
  have own: "get_property ex_inventory_oversold ''laptops'' \<noteq> Inherited"
    by (simp add: get_property_def oversold)
  have step: "server_item_step ex_inventory_oversold ex_restock ex_line_restock =
     Inr (ex_inventory_oversold(''laptops'' \<mapsto>
            invItem_of ex_inventory_oversold ex_restock ex_line_restock))"
    by (simp add: server_item_step_def invItem_of_def validate_def Let_def ex_defs ex_keys)
  note g = purchase_average_guard [where t = ex_restock and i = ex_line_restock
      and k = "''laptops''", OF purchase key]
  from g [where m = Map.empty and e = ex_stock] fresh
  have "averageCost (invItem_of Map.empty ex_restock ex_line_restock) =
      (if js_gt (js_add (Finite 0) (item_quantity ex_line_restock)) (Finite 0)
       then js_div (js_add (js_mul (Finite 0) (Finite 0))
               (js_mul (item_quantity ex_line_restock) (price ex_line_restock)))
              (js_add (Finite 0) (item_quantity ex_line_restock))
       else Finite 0)"
    by blast
  then have a: "averageCost (invItem_of Map.empty ex_restock ex_line_restock) = Finite 34000"
    by (simp add: ex_defs)
  from g [where m = ex_inventory and e = ex_stock] stocked
  have "quantity (invItem_of ex_inventory ex_restock ex_line_restock) =
      js_add (quantity ex_stock) (item_quantity ex_line_restock)"
    and "averageCost (invItem_of ex_inventory ex_restock ex_line_restock) =
      (if js_gt (js_add (quantity ex_stock) (item_quantity ex_line_restock)) (Finite 0)
       then js_div (js_add (js_mul (quantity ex_stock) (averageCost ex_stock))
                      (js_mul (item_quantity ex_line_restock) (price ex_line_restock)))
              (js_add (quantity ex_stock) (item_quantity ex_line_restock))
       else averageCost ex_stock)"
    by blast+
  then have b: "quantity (invItem_of ex_inventory ex_restock ex_line_restock) = Finite 8"
    "averageCost (invItem_of ex_inventory ex_restock ex_line_restock) = Finite 31500"
    by (simp_all add: ex_defs)
  from g [where m = ex_inventory_oversold and e = ex_oversold
      and m' = "ex_inventory_oversold(''laptops'' \<mapsto>
            invItem_of ex_inventory_oversold ex_restock ex_line_restock)"] oversold le own step
  have "quantity (invItem_of ex_inventory_oversold ex_restock ex_line_restock) =
      js_add (quantity ex_oversold) (item_quantity ex_line_restock)"
    and "averageCost (invItem_of ex_inventory_oversold ex_restock ex_line_restock) =
      averageCost ex_oversold"
    and c3: "client_item_step ex_inventory_oversold ex_restock ex_line_restock ''laptops'' =
       Some (invItem_of ex_inventory_oversold ex_restock ex_line_restock)"
    and c4: "(ex_inventory_oversold(''laptops'' \<mapsto>
        invItem_of ex_inventory_oversold ex_restock ex_line_restock)) ''laptops'' =
       Some (invItem_of ex_inventory_oversold ex_restock ex_line_restock)"
    by blast+
  then have c: "quantity (invItem_of ex_inventory_oversold ex_restock ex_line_restock) = Finite 0"
    "averageCost (invItem_of ex_inventory_oversold ex_restock ex_line_restock) = Finite 30000"
    by (simp_all add: ex_defs)
  from purchase key fresh stocked oversold gt le own step a b c c3 c4 show ?thesis by blast
qed

section \<open>A sale of an unknown product\<close>

text \<open>
  Two sales of a product that is not in the inventory create no item. A line whose
  description is blank has the empty key: the server refuses the document (\<open>id\<close> is
  required), answers 500 and stores nothing. A line for a product called Constructor has
  the key \<open>constructor\<close>, which the client's object inherits: no entry is created.
\<close>

theorem sale_of_blank_or_inherited_counterexample:
  "txn_type ex_sale_blank = SALE \<and> items ex_sale_blank = [ex_line_blank] \<and>
   productKey (description ex_line_blank) = [] \<and>
   inventory empty_state [] = None \<and>
   post_transactions empty_state ex_sale_blank = (empty_state, Status500 ValidationError) \<and>
   inventory (fst (post_transactions empty_state ex_sale_blank)) [] = None \<and>
   txn_type ex_sale_constructor = SALE \<and> items ex_sale_constructor = [ex_line_constructor] \<and>
   productKey (description ex_line_constructor) = ''constructor'' \<and>
   client_apply Map.empty ex_sale_constructor ''constructor'' = None"
  by (simp add: run_defs ex_defs ex_keys productKey_def)

text \<open>
  Claim C10, amended. A SALE line item whose key is absent from the inventory creates the
  item of that key, with the raw description as name, \<open>0 - quantity\<close> as quantity (minus
  the quantity of the line, for a double), the average cost 0, the price of the line as
  selling price and the date of the transaction as \<open>lastUpdated\<close>: on the server when the
  key is not empty and the quantity and the price are not \<open>NaN\<close>, also through a new
  single-line sale; on the client when the key is not one of the two inherited names. For
  the empty key the server refuses the item.
\<close>

theorem sale_creates_item:
  assumes "txn_type t = SALE" and "k = productKey (description i)"
  shows
   "(m k = None \<and> k \<noteq> [] \<and> item_quantity i \<noteq> NaN \<and> price i \<noteq> NaN \<longrightarrow>
       server_item_step m t i =
         Inr (m(k \<mapsto> \<lparr>inv_id = k, name = description i,
                       quantity = js_sub (Finite 0) (item_quantity i), averageCost = Finite 0,
                       sellingPrice = price i, lastUpdated = date t\<rparr>))) \<and>
    (m k = None \<and> k = [] \<longrightarrow> server_item_step m t i = Inl ValidationError) \<and>
    (m k = None \<and> \<not> inherited k \<longrightarrow>
       client_item_step m t i =
         m(k \<mapsto> \<lparr>inv_id = k, name = description i,
                  quantity = js_sub (Finite 0) (item_quantity i), averageCost = Finite 0,
                  sellingPrice = price i, lastUpdated = date t\<rparr>)) \<and>
    (is_double (item_quantity i) \<longrightarrow>
       js_sub (Finite 0) (item_quantity i) = js_neg (item_quantity i)) \<and>
    (inventory s k = None \<and> k \<noteq> [] \<and> item_quantity i \<noteq> NaN \<and> price i \<noteq> NaN \<and>
     items t = [i] \<and> transactions s (txn_id t) = None \<longrightarrow>
       post_transactions s t =
         (\<lparr>transactions = (transactions s)(txn_id t \<mapsto> t),
           inventory = (inventory s)(k \<mapsto> \<lparr>inv_id = k, name = description i,
                       quantity = js_sub (Finite 0) (item_quantity i), averageCost = Finite 0,
                       sellingPrice = price i, lastUpdated = date t\<rparr>)\<rparr>,
          TransactionJson t)) \<and>
    (inventory s k = None \<and> \<not> inherited k \<and> items t = [i] \<longrightarrow>
       client_apply (inventory s) t =
         (inventory s)(k \<mapsto> \<lparr>inv_id = k, name = description i,
                       quantity = js_sub (Finite 0) (item_quantity i), averageCost = Finite 0,
                       sellingPrice = price i, lastUpdated = date t\<rparr>))"
proof -
  let ?new = "\<lparr>inv_id = k, name = description i,
      quantity = js_sub (Finite 0) (item_quantity i), averageCost = Finite 0,
      sellingPrice = price i, lastUpdated = date t\<rparr>"
  have item: "invItem_of m' t i = ?new" if "m' k = None" for m'
    using that assms by (simp add: invItem_of_sale_new)
  have ok: "validate ?new" if "k \<noteq> []" "item_quantity i \<noteq> NaN" "price i \<noteq> NaN"
    using that assms(2) description_nonempty [of "description i"]
    by (simp add: validate_def js_sub_zero_NaN)
  have refused: "\<not> validate ?new" if "k = []"
    using that by (simp add: validate_def)
  have server: "server_item_step m' t i = Inr (m'(k \<mapsto> ?new))"
    if "m' k = None" "k \<noteq> []" "item_quantity i \<noteq> NaN" "price i \<noteq> NaN" for m'
    using that item [of m'] ok assms(2) by (simp add: server_item_step_eq)
  have client: "client_item_step m' t i = m'(k \<mapsto> ?new)" if "m' k = None" "\<not> inherited k" for m'
    using that item [of m'] assms(2) by (simp add: client_item_step_created)
  show ?thesis
  proof (intro conjI impI)
    assume "m k = None \<and> k \<noteq> [] \<and> item_quantity i \<noteq> NaN \<and> price i \<noteq> NaN"
    then show "server_item_step m t i = Inr (m(k \<mapsto> ?new))" using server by blast
  next
    assume h: "m k = None \<and> k = []"
    then have "invItem_of m t i = ?new" using item by blast
    with h show "server_item_step m t i = Inl ValidationError"
      using refused by (simp only: server_item_step_eq if_False)
  next
    assume "m k = None \<and> \<not> inherited k"
    then show "client_item_step m t i = m(k \<mapsto> ?new)" using client by blast
  next
    assume "is_double (item_quantity i)"
    then show "js_sub (Finite 0) (item_quantity i) = js_neg (item_quantity i)"
      by (rule js_sub_zero)
  next
    assume h: "inventory s k = None \<and> k \<noteq> [] \<and> item_quantity i \<noteq> NaN \<and> price i \<noteq> NaN \<and>
      items t = [i] \<and> transactions s (txn_id t) = None"
    then have "server_item_step (inventory s) t i = Inr ((inventory s)(k \<mapsto> ?new))"
      using server by blast
    with h have "save_items (inventory s) t (items t) = ((inventory s)(k \<mapsto> ?new), None)"
      by simp
    with h show "post_transactions s t =
         (\<lparr>transactions = (transactions s)(txn_id t \<mapsto> t),
           inventory = (inventory s)(k \<mapsto> ?new)\<rparr>, TransactionJson t)"
      by (simp add: post_transactions_accepted)
  next
    assume h: "inventory s k = None \<and> \<not> inherited k \<and> items t = [i]"
    then have "client_item_step (inventory s) t i = (inventory s)(k \<mapsto> ?new)"
      using client by blast
    with h show "client_apply (inventory s) t = (inventory s)(k \<mapsto> ?new)"
      by (simp add: client_apply_def)
  qed
qed

theorem sale_creates_item_witness:
  "txn_type ex_sale = SALE \<and> ''laptops'' = productKey (description ex_line_sale) \<and>
   inventory empty_state ''laptops'' = None \<and> ''laptops'' \<noteq> [] \<and> \<not> inherited ''laptops'' \<and>
   item_quantity ex_line_sale \<noteq> NaN \<and> price ex_line_sale \<noteq> NaN \<and>
   is_double (item_quantity ex_line_sale) \<and>
   items ex_sale = [ex_line_sale] \<and> transactions empty_state (txn_id ex_sale) = None \<and>
   js_sub (Finite 0) (item_quantity ex_line_sale) = js_neg (item_quantity ex_line_sale) \<and>
   post_transactions empty_state ex_sale =
     (\<lparr>transactions = [''2'' \<mapsto> ex_sale],
       inventory = [''laptops'' \<mapsto>
         \<lparr>inv_id = ''laptops'', name = ''Laptops'', quantity = Finite (- 1),
          averageCost = Finite 0, sellingPrice = Finite 35000, lastUpdated = 1708387200000\<rparr>]\<rparr>,
      TransactionJson ex_sale) \<and>
   client_apply Map.empty ex_sale =
     [''laptops'' \<mapsto>
       \<lparr>inv_id = ''laptops'', name = ''Laptops'', quantity = Finite (- 1),
        averageCost = Finite 0, sellingPrice = Finite 35000, lastUpdated = 1708387200000\<rparr>] \<and>
   txn_type ex_sale_blank = SALE \<and> [] = productKey (description ex_line_blank) \<and>
   server_item_step Map.empty ex_sale_blank ex_line_blank = Inl ValidationError"
proof -
  have sale: "txn_type ex_sale = SALE" "txn_type ex_sale_blank = SALE"
    by (simp_all add: ex_defs)
  have key: "''laptops'' = productKey (description ex_line_sale)"
    "[] = productKey (description ex_line_blank)"
    by (simp_all add: ex_product_keys)
  have st: "inventory empty_state ''laptops'' = None \<and> ''laptops'' \<noteq> [] \<and>
      item_quantity ex_line_sale \<noteq> NaN \<and> price ex_line_sale \<noteq> NaN \<and>
      items ex_sale = [ex_line_sale] \<and> transactions empty_state (txn_id ex_sale) = None"
    by (simp add: empty_state_def ex_defs)
  have own: "\<not> inherited ''laptops''" by (simp add: inherited_def)
  have dbl: "is_double (item_quantity ex_line_sale)" by (simp add: is_double_def ex_defs)
  have blank: "(Map.empty :: string \<rightharpoonup> InventoryItem) [] = None \<and> ([]::string) = []" by simp
  note inst = sale_creates_item [where t = ex_sale and i = ex_line_sale and k = "''laptops''"
      and s = empty_state, OF sale(1) key(1)]
  note refused = sale_creates_item [where t = ex_sale_blank and i = ex_line_blank and k = "[]"
      and m = Map.empty, OF sale(2) key(2)]
  have neg: "js_sub (Finite 0) (item_quantity ex_line_sale) = js_neg (item_quantity ex_line_sale)"
    using inst dbl by blast
  have v: "\<lparr>inv_id = ''laptops'', name = description ex_line_sale,
             quantity = js_sub (Finite 0) (item_quantity ex_line_sale), averageCost = Finite 0,
             sellingPrice = price ex_line_sale, lastUpdated = date ex_sale\<rparr> =
           \<lparr>inv_id = ''laptops'', name = ''Laptops'', quantity = Finite (- 1),
            averageCost = Finite 0, sellingPrice = Finite 35000, lastUpdated = 1708387200000\<rparr>"
    by (simp add: ex_defs js_sub_def)
  have id: "txn_id ex_sale = ''2''" by (simp add: ex_defs)
  from inst st
  have "post_transactions empty_state ex_sale =
         (\<lparr>transactions = (transactions empty_state)(txn_id ex_sale \<mapsto> ex_sale),
           inventory = (inventory empty_state)(''laptops'' \<mapsto>
             \<lparr>inv_id = ''laptops'', name = description ex_line_sale,
              quantity = js_sub (Finite 0) (item_quantity ex_line_sale), averageCost = Finite 0,
              sellingPrice = price ex_line_sale, lastUpdated = date ex_sale\<rparr>)\<rparr>,
          TransactionJson ex_sale)"
    by blast
  then have server: "post_transactions empty_state ex_sale =
     (\<lparr>transactions = [''2'' \<mapsto> ex_sale],
       inventory = [''laptops'' \<mapsto>
         \<lparr>inv_id = ''laptops'', name = ''Laptops'', quantity = Finite (- 1),
          averageCost = Finite 0, sellingPrice = Finite 35000, lastUpdated = 1708387200000\<rparr>]\<rparr>,
      TransactionJson ex_sale)"
    by (simp add: v id empty_state_def)
  from inst st own
  have "client_apply (inventory empty_state) ex_sale =
         (inventory empty_state)(''laptops'' \<mapsto>
             \<lparr>inv_id = ''laptops'', name = description ex_line_sale,
              quantity = js_sub (Finite 0) (item_quantity ex_line_sale), averageCost = Finite 0,
              sellingPrice = price ex_line_sale, lastUpdated = date ex_sale\<rparr>)"
    by blast
  then have client: "client_apply Map.empty ex_sale =
     [''laptops'' \<mapsto>
       \<lparr>inv_id = ''laptops'', name = ''Laptops'', quantity = Finite (- 1),
        averageCost = Finite 0, sellingPrice = Finite 35000, lastUpdated = 1708387200000\<rparr>]"
    by (simp add: v empty_state_def)
  from refused blank
  have no: "server_item_step Map.empty ex_sale_blank ex_line_blank = Inl ValidationError"
    by blast
  from sale key st own dbl neg server client no show ?thesis by blast
qed

section \<open>The name of an item\<close>

lemma stored_name_kept:
  assumes "map_option name (m k) = Some n"
  shows "map_option name ((m(productKey (description i) \<mapsto> invItem_of m t i)) k) = Some n"
proof (cases "k = productKey (description i)")
  case True
  with assms obtain e where "m (productKey (description i)) = Some e" and "name e = n" by auto
  with True show ?thesis by (simp add: invItem_of_name_kept)
next
  case False
  with assms show ?thesis by simp
qed

lemma server_item_step_name_kept:
  assumes "map_option name (m k) = Some n" and "server_item_step m t i = Inr m'"
  shows "map_option name (m' k) = Some n"
proof -
  from assms(2) have "m' = m(productKey (description i) \<mapsto> invItem_of m t i)"
    by (simp only: server_item_step_Inr)
  with assms(1) show ?thesis by (simp only: stored_name_kept)
qed

lemma client_item_step_name_kept:
  assumes "map_option name (m k) = Some n"
  shows "map_option name (client_item_step m t i k) = Some n"
proof (cases "get_property m (productKey (description i)) = Inherited")
  case True
  then have "client_item_step m t i = m" by (simp add: client_item_step_eq)
  with assms show ?thesis by (simp only:)
next
  case False
  then have "client_item_step m t i = m(productKey (description i) \<mapsto> invItem_of m t i)"
    by (simp add: client_item_step_eq)
  with assms show ?thesis by (simp only: stored_name_kept)
qed

lemma save_items_name_kept:
  "map_option name (m k) = Some n \<Longrightarrow>
   map_option name (fst (save_items m t is) k) = Some n"
proof (induction "is" arbitrary: m)
  case Nil
  then show ?case by simp
next
  case (Cons i "is")
  show ?case
  proof (cases "server_item_step m t i")
    case (Inl err)
    with Cons.prems show ?thesis by simp
  next
    case (Inr m')
    with Cons.prems have "map_option name (m' k) = Some n"
      by (simp add: server_item_step_name_kept)
    then have "map_option name (fst (save_items m' t is) k) = Some n" by (rule Cons.IH)
    with Inr show ?thesis by simp
  qed
qed

lemma post_transactions_name_kept:
  assumes "map_option name (inventory s k) = Some n"
  shows "map_option name (inventory (fst (post_transactions s t)) k) = Some n"
proof (cases "transactions s (txn_id t)")
  case (Some old)
  with assms show ?thesis by (simp add: post_transactions_known)
next
  case None
  from assms have kept: "map_option name (fst (save_items (inventory s) t (items t)) k) = Some n"
    by (rule save_items_name_kept)
  show ?thesis
  proof (cases "snd (save_items (inventory s) t (items t))")
    case (Some err)
    with None kept show ?thesis by (simp add: post_transactions_refused)
  next
    case accepted: None
    with None kept show ?thesis by (simp add: post_transactions_accepted)
  qed
qed

lemma submit_all_name_kept:
  "map_option name (inventory s k) = Some n \<Longrightarrow>
   map_option name (inventory (submit_all s ts) k) = Some n"
proof (induction ts arbitrary: s)
  case Nil
  then show ?case by (simp add: submit_all_def)
next
  case (Cons t ts)
  from Cons.prems have "map_option name (inventory (fst (post_transactions s t)) k) = Some n"
    by (rule post_transactions_name_kept)
  then have "map_option name (inventory (submit_all (fst (post_transactions s t)) ts) k) = Some n"
    by (rule Cons.IH)
  then show ?case by (simp add: submit_all_Cons)
qed

lemma client_items_name_kept:
  "map_option name (m k) = Some n \<Longrightarrow>
   map_option name (foldl (\<lambda>m i. client_item_step m t i) m is k) = Some n"
proof (induction "is" arbitrary: m)
  case Nil
  then show ?case by simp
next
  case (Cons i "is")
  from Cons.prems have "map_option name (client_item_step m t i k) = Some n"
    by (rule client_item_step_name_kept)
  then have "map_option name (foldl (\<lambda>m i. client_item_step m t i) (client_item_step m t i) is k) =
      Some n"
    by (rule Cons.IH)
  then show ?case by (simp only: foldl_Cons)
qed

lemma client_apply_name_kept:
  "map_option name (m k) = Some n \<Longrightarrow> map_option name (client_apply m t k) = Some n"
  unfolding client_apply_def by (rule client_items_name_kept)

lemma client_fold_name_kept:
  "map_option name (m k) = Some n \<Longrightarrow> map_option name (foldl client_apply m ts k) = Some n"
proof (induction ts arbitrary: m)
  case Nil
  then show ?case by simp
next
  case (Cons t ts)
  from Cons.prems have "map_option name (client_apply m t k) = Some n"
    by (rule client_apply_name_kept)
  then have "map_option name (foldl client_apply (client_apply m t) ts k) = Some n"
    by (rule Cons.IH)
  then show ?case by (simp only: foldl_Cons)
qed

text \<open>
  Claim C8. The line item that creates a key sets the name to its raw description. Once a
  key has a name, no line item changes it, whatever its description: not in one step of the
  server or the client, not in the loop of a submission, accepted or refused, not in the
  client's fold over any list of transactions, and not in any sequence of submissions to
  the server.
\<close>

theorem name_set_once:
  "(m (productKey (description i)) = None \<and> server_item_step m t i = Inr m' \<longrightarrow>
      map_option name (m' (productKey (description i))) = Some (description i)) \<and>
   (get_property m (productKey (description i)) = Undefined \<longrightarrow>
      map_option name (client_item_step m t i (productKey (description i))) =
        Some (description i)) \<and>
   (map_option name (m k) = Some n \<and> server_item_step m t i = Inr m' \<longrightarrow>
      map_option name (m' k) = Some n) \<and>
   (map_option name (m k) = Some n \<longrightarrow>
      map_option name (client_item_step m t i k) = Some n \<and>
      map_option name (fst (save_items m t lines) k) = Some n \<and>
      map_option name (foldl client_apply m ts k) = Some n) \<and>
   (map_option name (inventory s k) = Some n \<longrightarrow>
      map_option name (inventory (fst (post_transactions s t)) k) = Some n \<and>
      map_option name (inventory (submit_all s ts) k) = Some n)"
proof (intro conjI impI)
  assume "m (productKey (description i)) = None \<and> server_item_step m t i = Inr m'"
  then show "map_option name (m' (productKey (description i))) = Some (description i)"
    by (auto simp: server_item_step_Inr invItem_of_name_new)
next
  assume "get_property m (productKey (description i)) = Undefined"
  then show "map_option name (client_item_step m t i (productKey (description i))) =
        Some (description i)"
    by (simp add: get_property_Undefined client_item_step_created invItem_of_name_new)
next
  assume "map_option name (m k) = Some n \<and> server_item_step m t i = Inr m'"
  then show "map_option name (m' k) = Some n"
    using server_item_step_name_kept by blast
next
  assume present: "map_option name (m k) = Some n"
  then show "map_option name (client_item_step m t i k) = Some n"
    by (rule client_item_step_name_kept)
  from present show "map_option name (fst (save_items m t lines) k) = Some n"
    by (rule save_items_name_kept)
  from present show "map_option name (foldl client_apply m ts k) = Some n"
    by (rule client_fold_name_kept)
next
  assume present: "map_option name (inventory s k) = Some n"
  then show "map_option name (inventory (fst (post_transactions s t)) k) = Some n"
    by (rule post_transactions_name_kept)
  from present show "map_option name (inventory (submit_all s ts) k) = Some n"
    by (rule submit_all_name_kept)
qed

theorem name_set_once_witness:
  "Map.empty (productKey (description ex_line_purchase)) = (None :: InventoryItem option) \<and>
   server_item_step Map.empty ex_purchase ex_line_purchase = Inr ex_inventory \<and>
   map_option name (ex_inventory (productKey (description ex_line_purchase))) =
     Some ''Laptops'' \<and>
   get_property Map.empty (productKey (description ex_line_purchase)) = Undefined \<and>
   map_option name
     (client_item_step Map.empty ex_purchase ex_line_purchase
        (productKey (description ex_line_purchase))) = Some ''Laptops'' \<and>
   map_option name (ex_inventory ''laptops'') = Some ''Laptops'' \<and>
   productKey (description ex_line_restock) = ''laptops'' \<and>
   description ex_line_restock = ''  LAPTOPS '' \<and>
   map_option name (client_item_step ex_inventory ex_restock ex_line_restock ''laptops'') =
     Some ''Laptops'' \<and>
   map_option name (foldl client_apply ex_inventory [ex_sale, ex_restock] ''laptops'') =
     Some ''Laptops'' \<and>
   map_option name (fst (save_items ex_inventory ex_restock [ex_line_restock]) ''laptops'') =
     Some ''Laptops'' \<and>
   map_option name (inventory ex_after_sale ''laptops'') = Some ''Laptops'' \<and>
   map_option name
     (inventory (submit_all ex_after_sale [ex_restock, ex_purchase_blank]) ''laptops'') =
     Some ''Laptops''"
proof -
  have fresh: "Map.empty (productKey (description ex_line_purchase)) = (None :: InventoryItem option)"
    by simp
  have created: "server_item_step Map.empty ex_purchase ex_line_purchase = Inr ex_inventory"
    by (simp add: run_defs ex_defs ex_keys)
  have undef: "get_property Map.empty (productKey (description ex_line_purchase)) = Undefined"
    by (simp add: get_property_def inherited_def ex_product_keys)
  have d: "description ex_line_purchase = ''Laptops''" "description ex_line_restock = ''  LAPTOPS ''"
    by (simp_all add: ex_defs)
  have present: "map_option name (ex_inventory ''laptops'') = Some ''Laptops''"
    by (simp add: ex_inventory_def ex_defs)
  have posted: "map_option name (inventory ex_after_sale ''laptops'') = Some ''Laptops''"
    by (simp add: ex_after_sale_eq)
  from name_set_once [where m = Map.empty and i = ex_line_purchase and t = ex_purchase
      and m' = ex_inventory] fresh created undef
  have a: "map_option name (ex_inventory (productKey (description ex_line_purchase))) =
      Some (description ex_line_purchase)"
    "map_option name
     (client_item_step Map.empty ex_purchase ex_line_purchase
        (productKey (description ex_line_purchase))) = Some (description ex_line_purchase)"
    by blast+
  from name_set_once [where m = ex_inventory and i = ex_line_restock and t = ex_restock
      and k = "''laptops''" and n = "''Laptops''" and ts = "[ex_sale, ex_restock]"
      and lines = "[ex_line_restock]"] present
  have b: "map_option name (client_item_step ex_inventory ex_restock ex_line_restock ''laptops'') =
     Some ''Laptops''"
    "map_option name (foldl client_apply ex_inventory [ex_sale, ex_restock] ''laptops'') =
     Some ''Laptops''"
    "map_option name (fst (save_items ex_inventory ex_restock [ex_line_restock]) ''laptops'') =
     Some ''Laptops''"
    by blast+
  from name_set_once [where s = ex_after_sale and k = "''laptops''" and n = "''Laptops''"
      and ts = "[ex_restock, ex_purchase_blank]"] posted
  have c: "map_option name
     (inventory (submit_all ex_after_sale [ex_restock, ex_purchase_blank]) ''laptops'') =
     Some ''Laptops''"
    by blast
  from fresh created undef present posted a b c ex_product_keys(3) d show ?thesis
    by (simp only: simp_thms)
qed

section \<open>Submitting twice\<close>

text \<open>
  Claim C6. Submitting a transaction twice should leave both stores as submitting it once
  does. The code saves the lines before it stores the transaction, so a submission that is
  refused at a later line leaves the earlier lines applied and the id unknown, and the
  same submission again applies them again: a purchase of five laptops with a second,
  blank line gives 5 laptops after one submission and 10 after two.
\<close>

theorem resubmission_applies_twice:
  "items ex_purchase_blank = [ex_line_purchase, ex_line_blank] \<and>
   post_transactions empty_state ex_purchase_blank =
     (\<lparr>transactions = Map.empty, inventory = [''laptops'' \<mapsto> ex_stock]\<rparr>,
      Status500 ValidationError) \<and>
   quantity ex_stock = Finite 5 \<and>
   transactions (submit_all empty_state [ex_purchase_blank, ex_purchase_blank]) = Map.empty \<and>
   map_option quantity
     (inventory (submit_all empty_state [ex_purchase_blank, ex_purchase_blank]) ''laptops'') =
     Some (Finite 10) \<and>
   submit_all empty_state [ex_purchase_blank, ex_purchase_blank] \<noteq>
     submit_all empty_state [ex_purchase_blank]"
proof -
  have once: "post_transactions empty_state ex_purchase_blank =
     (\<lparr>transactions = Map.empty, inventory = [''laptops'' \<mapsto> ex_stock]\<rparr>,
      Status500 ValidationError)"
    by (simp add: run_defs ex_defs ex_keys)
  have twice: "map_option quantity
     (inventory (submit_all empty_state [ex_purchase_blank, ex_purchase_blank]) ''laptops'') =
     Some (Finite 10)"
    by (simp add: run_defs ex_defs ex_keys)
  have store: "transactions (submit_all empty_state [ex_purchase_blank, ex_purchase_blank]) =
     Map.empty"
    by (simp add: run_defs ex_defs ex_keys)
  have "map_option quantity (inventory (submit_all empty_state [ex_purchase_blank]) ''laptops'') =
     Some (Finite 5)"
    by (simp add: run_defs ex_defs ex_keys)
  with twice have differ: "submit_all empty_state [ex_purchase_blank, ex_purchase_blank] \<noteq>
     submit_all empty_state [ex_purchase_blank]"
    by auto
  show ?thesis using once twice store differ by (simp add: ex_defs)
qed

lemma findOneAndUpdate_again:
  "findOneAndUpdate (m(txn_id t \<mapsto> findOneAndUpdate m t)) t = findOneAndUpdate m t"
  by (cases "m (txn_id t)"; cases "txn_notes t") (simp_all add: findOneAndUpdate_def)

text \<open>
  For a submission that is not refused the property holds: the second submission finds the
  id, leaves the inventory alone and stores the same record.
\<close>

lemma post_transactions_idempotent_if_accepted:
  assumes "snd (post_transactions s t) \<noteq> Status500 ValidationError"
  shows "post_transactions (fst (post_transactions s t)) t = post_transactions s t"
proof (cases "transactions s (txn_id t)")
  case (Some old)
  then show ?thesis
    by (simp add: post_transactions_known findOneAndUpdate_again)
next
  case None
  show ?thesis
  proof (cases "snd (save_items (inventory s) t (items t))")
    case (Some err)
    with None assms show ?thesis by (cases err) (simp add: post_transactions_refused)
  next
    case accepted: None
    have "findOneAndUpdate ((transactions s)(txn_id t \<mapsto> t)) t = t"
      by (cases "txn_notes t") (simp_all add: findOneAndUpdate_def)
    with None accepted show ?thesis
      by (simp add: post_transactions_accepted post_transactions_known)
  qed
qed

section \<open>Weighted average cost\<close>

text \<open>
  The quantities and costs are doubles, and every sum, product and quotient is rounded. A
  purchase of \<open>2^53\<close> units followed by a purchase of one unit leaves the quantity
  \<open>2^53\<close>, not \<open>2^53 + 1\<close>, on the server and on the client.
\<close>

theorem weighted_average_rounds_counterexample:
  "txn_type ex_bulk = PURCHASE \<and> txn_type ex_grain = PURCHASE \<and>
   items ex_bulk = [ex_line_bulk] \<and> items ex_grain = [ex_line_grain] \<and>
   productKey (description ex_line_bulk) = ''rice'' \<and>
   productKey (description ex_line_grain) = ''rice'' \<and>
   item_quantity ex_line_bulk = Finite 9007199254740992 \<and>
   item_quantity ex_line_grain = Finite 1 \<and>
   is_double (Finite 9007199254740992) \<and>
   inventory empty_state ''rice'' = None \<and>
   submit_responses empty_state [ex_bulk, ex_grain] =
     [TransactionJson ex_bulk, TransactionJson ex_grain] \<and>
   map_option quantity (inventory (submit_all empty_state [ex_bulk, ex_grain]) ''rice'') =
     Some (Finite 9007199254740992) \<and>
   map_option quantity (client_apply (client_apply Map.empty ex_bulk) ex_grain ''rice'') =
     Some (Finite 9007199254740992) \<and>
   Finite (9007199254740992 + 1) \<noteq> Finite 9007199254740992"
  by (simp add: run_defs ex_defs ex_keys productKey_def round_double_2_53_plus_1 is_double_def)

lemma weighted_average_two_items:
  assumes "txn_type t1 = PURCHASE" and "txn_type t2 = PURCHASE"
    and "productKey (description i1) = k" and "productKey (description i2) = k"
    and "item_quantity i1 = Finite q1" and "price i1 = Finite c1"
    and "item_quantity i2 = Finite q2" and "price i2 = Finite c2"
    and "0 < q1" and "0 < q2"
    and "representable q1" and "representable c1"
    and "representable (q1 * c1)" and "representable (q2 * c2)"
    and "representable (q1 + q2)" and "representable (q1 * c1 + q2 * c2)"
    and "m k = None"
  shows "invItem_of m t1 i1 =
      \<lparr>inv_id = k, name = description i1, quantity = Finite q1, averageCost = Finite c1,
       sellingPrice = Finite 0, lastUpdated = date t1\<rparr>"
    and "invItem_of
        (m(k \<mapsto> \<lparr>inv_id = k, name = description i1, quantity = Finite q1,
                  averageCost = Finite c1, sellingPrice = Finite 0, lastUpdated = date t1\<rparr>))
        t2 i2 =
      \<lparr>inv_id = k, name = description i1, quantity = Finite (q1 + q2),
       averageCost = round_double ((q1 * c1 + q2 * c2) / (q1 + q2)),
       sellingPrice = Finite 0, lastUpdated = date t2\<rparr>"
proof -
  have absent: "m (productKey (description i1)) = None" using assms(3,17) by simp
  show "invItem_of m t1 i1 =
      \<lparr>inv_id = k, name = description i1, quantity = Finite q1, averageCost = Finite c1,
       sellingPrice = Finite 0, lastUpdated = date t1\<rparr>"
    using assms(1,3,5,6,9) absent representableD [OF assms(11)] representableD [OF assms(12)]
      representableD [OF assms(13)]
    by (simp add: invItem_of_purchase_new [where m = m and t = t1 and i = i1])
  let ?first = "\<lparr>inv_id = k, name = description i1, quantity = Finite q1,
      averageCost = Finite c1, sellingPrice = Finite 0, lastUpdated = date t1\<rparr>"
  have present: "(m(k \<mapsto> ?first)) (productKey (description i2)) = Some ?first"
    using assms(4) by simp
  have pos: "0 < q1 + q2" using assms(9,10) by simp
  show "invItem_of (m(k \<mapsto> ?first)) t2 i2 =
      \<lparr>inv_id = k, name = description i1, quantity = Finite (q1 + q2),
       averageCost = round_double ((q1 * c1 + q2 * c2) / (q1 + q2)),
       sellingPrice = Finite 0, lastUpdated = date t2\<rparr>"
    using assms(2,7,8) present pos representableD [OF assms(13)] representableD [OF assms(14)]
      representableD [OF assms(15)] representableD [OF assms(16)]
    by (simp add: invItem_of_purchase_existing [where m = "m(k \<mapsto> ?first)" and t = t2
          and i = i2 and e = ?first])
qed

text \<open>
  Claim C3, amended. From a state in which the product key is absent, a PURCHASE line of
  \<open>q1\<close> units at cost \<open>c1\<close> followed by a PURCHASE line of \<open>q2\<close> units at cost \<open>c2\<close> for
  the same key, both quantities positive: when \<open>q1\<close>, \<open>c1\<close>, the products \<open>q1 * c1\<close> and
  \<open>q2 * c2\<close> and the sums \<open>q1 + q2\<close> and \<open>q1 * c1 + q2 * c2\<close> are doubles (as integers up
  to \<open>2^53\<close> are), the item has the quantity \<open>q1 + q2\<close> and as average cost the double
  nearest to \<open>(q1 * c1 + q2 * c2) / (q1 + q2)\<close>, which is that quotient when the quotient
  is a double. On the server this holds for a key that is not empty, through the two saves
  and through two new single-line transactions, both answered with the transaction; on the
  client for a key that is not one of the two inherited names.
\<close>

theorem purchase_twice_weighted_average:
  assumes "txn_type t1 = PURCHASE" and "txn_type t2 = PURCHASE"
    and "productKey (description i1) = k" and "productKey (description i2) = k"
    and "item_quantity i1 = Finite q1" and "price i1 = Finite c1"
    and "item_quantity i2 = Finite q2" and "price i2 = Finite c2"
    and "0 < q1" and "0 < q2"
    and "representable q1" and "representable c1"
    and "representable (q1 * c1)" and "representable (q2 * c2)"
    and "representable (q1 + q2)" and "representable (q1 * c1 + q2 * c2)"
  shows
   "(m k = None \<and> \<not> inherited k \<longrightarrow>
       client_item_step (client_item_step m t1 i1) t2 i2 k =
         Some \<lparr>inv_id = k, name = description i1, quantity = Finite (q1 + q2),
               averageCost = round_double ((q1 * c1 + q2 * c2) / (q1 + q2)),
               sellingPrice = Finite 0, lastUpdated = date t2\<rparr>) \<and>
    (m k = None \<and> k \<noteq> [] \<longrightarrow>
       map_sum id (\<lambda>m2. m2 k)
         (case server_item_step m t1 i1 of
            Inl err \<Rightarrow> Inl err
          | Inr m1 \<Rightarrow> server_item_step m1 t2 i2) =
         Inr (Some \<lparr>inv_id = k, name = description i1, quantity = Finite (q1 + q2),
                    averageCost = round_double ((q1 * c1 + q2 * c2) / (q1 + q2)),
                    sellingPrice = Finite 0, lastUpdated = date t2\<rparr>)) \<and>
    (inventory s k = None \<and> k \<noteq> [] \<and> items t1 = [i1] \<and> items t2 = [i2] \<and>
     transactions s (txn_id t1) = None \<and> transactions s (txn_id t2) = None \<and>
     txn_id t1 \<noteq> txn_id t2 \<longrightarrow>
       submit_responses s [t1, t2] = [TransactionJson t1, TransactionJson t2] \<and>
       inventory (submit_all s [t1, t2]) k =
         Some \<lparr>inv_id = k, name = description i1, quantity = Finite (q1 + q2),
               averageCost = round_double ((q1 * c1 + q2 * c2) / (q1 + q2)),
               sellingPrice = Finite 0, lastUpdated = date t2\<rparr>) \<and>
    (inventory s k = None \<and> \<not> inherited k \<and> items t1 = [i1] \<and> items t2 = [i2] \<longrightarrow>
       client_apply (client_apply (inventory s) t1) t2 k =
         Some \<lparr>inv_id = k, name = description i1, quantity = Finite (q1 + q2),
               averageCost = round_double ((q1 * c1 + q2 * c2) / (q1 + q2)),
               sellingPrice = Finite 0, lastUpdated = date t2\<rparr>) \<and>
    (representable ((q1 * c1 + q2 * c2) / (q1 + q2)) \<longrightarrow>
       round_double ((q1 * c1 + q2 * c2) / (q1 + q2)) =
         Finite ((q1 * c1 + q2 * c2) / (q1 + q2)))"
proof -
  let ?first = "\<lparr>inv_id = k, name = description i1, quantity = Finite q1,
      averageCost = Finite c1, sellingPrice = Finite 0, lastUpdated = date t1\<rparr>"
  let ?final = "\<lparr>inv_id = k, name = description i1, quantity = Finite (q1 + q2),
      averageCost = round_double ((q1 * c1 + q2 * c2) / (q1 + q2)),
      sellingPrice = Finite 0, lastUpdated = date t2\<rparr>"
  have one: "invItem_of m' t1 i1 = ?first" if "m' k = None" for m'
    using assms that by (rule weighted_average_two_items(1))
  have two: "invItem_of (m'(k \<mapsto> ?first)) t2 i2 = ?final" if "m' k = None" for m'
    using assms that by (rule weighted_average_two_items(2))
  have client: "client_item_step (client_item_step m' t1 i1) t2 i2 = m'(k \<mapsto> ?final)"
    if "m' k = None" "\<not> inherited k" for m'
  proof -
    have "client_item_step m' t1 i1 = m'(k \<mapsto> ?first)"
      using that one [of m'] assms(3) by (simp add: client_item_step_created)
    moreover have "client_item_step (m'(k \<mapsto> ?first)) t2 i2 = (m'(k \<mapsto> ?first))(k \<mapsto> ?final)"
      using that two [of m'] assms(4) by (simp add: client_item_step_created)
    ultimately show ?thesis by simp
  qed
  have named: "description i1 \<noteq> []" if "k \<noteq> []"
    using that assms(3) description_nonempty by blast
  have server1: "server_item_step m' t1 i1 = Inr (m'(k \<mapsto> ?first))"
    if "m' k = None" "k \<noteq> []" for m'
    using that one [of m'] named assms(3) by (simp add: server_item_step_eq validate_def)
  have server2: "server_item_step (m'(k \<mapsto> ?first)) t2 i2 = Inr (m'(k \<mapsto> ?final))"
    if "m' k = None" "k \<noteq> []" for m'
    using that two [of m'] named assms(4) by (simp add: server_item_step_eq validate_def)
  show ?thesis
  proof (intro conjI impI)
    assume "m k = None \<and> \<not> inherited k"
    then show "client_item_step (client_item_step m t1 i1) t2 i2 k = Some ?final"
      using client [of m] by simp
  next
    assume "m k = None \<and> k \<noteq> []"
    then show "map_sum id (\<lambda>m2. m2 k)
         (case server_item_step m t1 i1 of
            Inl err \<Rightarrow> Inl err
          | Inr m1 \<Rightarrow> server_item_step m1 t2 i2) = Inr (Some ?final)"
      using server1 [of m] server2 [of m] by simp
  next
    assume h: "inventory s k = None \<and> k \<noteq> [] \<and> items t1 = [i1] \<and> items t2 = [i2] \<and>
      transactions s (txn_id t1) = None \<and> transactions s (txn_id t2) = None \<and>
      txn_id t1 \<noteq> txn_id t2"
    let ?s1 = "\<lparr>transactions = (transactions s)(txn_id t1 \<mapsto> t1),
       inventory = (inventory s)(k \<mapsto> ?first)\<rparr>"
    have p1: "post_transactions s t1 = (?s1, TransactionJson t1)"
      using h server1 [of "inventory s"] by (simp add: post_transactions_accepted)
    have new2: "transactions ?s1 (txn_id t2) = None" using h by auto
    have sv2: "save_items (inventory ?s1) t2 (items t2) = ((inventory s)(k \<mapsto> ?final), None)"
      using h server2 [of "inventory s"] by simp
    have p2: "post_transactions ?s1 t2 =
        (\<lparr>transactions = (transactions ?s1)(txn_id t2 \<mapsto> t2),
          inventory = (inventory s)(k \<mapsto> ?final)\<rparr>, TransactionJson t2)"
      using post_transactions_accepted [of ?s1 t2] new2 sv2 by simp
    show "submit_responses s [t1, t2] = [TransactionJson t1, TransactionJson t2]"
      by (simp add: p1 p2)
    show "inventory (submit_all s [t1, t2]) k = Some ?final"
      by (simp add: submit_all_def p1 p2)
  next
    assume h: "inventory s k = None \<and> \<not> inherited k \<and> items t1 = [i1] \<and> items t2 = [i2]"
    then show "client_apply (client_apply (inventory s) t1) t2 k = Some ?final"
      using client [of "inventory s"] by (simp add: client_apply_def)
  next
    assume "representable ((q1 * c1 + q2 * c2) / (q1 + q2))"
    then show "round_double ((q1 * c1 + q2 * c2) / (q1 + q2)) =
         Finite ((q1 * c1 + q2 * c2) / (q1 + q2))"
      by (rule representableD)
  qed
qed

theorem purchase_twice_weighted_average_witness:
  "txn_type ex_purchase = PURCHASE \<and> txn_type ex_restock = PURCHASE \<and>
   productKey (description ex_line_purchase) = ''laptops'' \<and>
   productKey (description ex_line_restock) = ''laptops'' \<and>
   item_quantity ex_line_purchase = Finite 5 \<and> price ex_line_purchase = Finite 30000 \<and>
   item_quantity ex_line_restock = Finite 3 \<and> price ex_line_restock = Finite 34000 \<and>
   representable 5 \<and> representable 30000 \<and> representable (5 * 30000) \<and>
   representable (3 * 34000) \<and> representable (5 + 3) \<and>
   representable (5 * 30000 + 3 * 34000) \<and>
   representable ((5 * 30000 + 3 * 34000) / (5 + 3)) \<and>
   inventory empty_state ''laptops'' = None \<and> \<not> inherited ''laptops'' \<and>
   items ex_purchase = [ex_line_purchase] \<and> items ex_restock = [ex_line_restock] \<and>
   transactions empty_state (txn_id ex_purchase) = None \<and>
   transactions empty_state (txn_id ex_restock) = None \<and>
   txn_id ex_purchase \<noteq> txn_id ex_restock \<and>
   submit_responses empty_state [ex_purchase, ex_restock] =
     [TransactionJson ex_purchase, TransactionJson ex_restock] \<and>
   inventory (submit_all empty_state [ex_purchase, ex_restock]) ''laptops'' =
     Some \<lparr>inv_id = ''laptops'', name = ''Laptops'', quantity = Finite 8,
           averageCost = Finite 31500, sellingPrice = Finite 0, lastUpdated = 1708214400000\<rparr> \<and>
   client_apply (client_apply Map.empty ex_purchase) ex_restock ''laptops'' =
     Some \<lparr>inv_id = ''laptops'', name = ''Laptops'', quantity = Finite 8,
           averageCost = Finite 31500, sellingPrice = Finite 0, lastUpdated = 1708214400000\<rparr>"
proof -
  have types: "txn_type ex_purchase = PURCHASE" "txn_type ex_restock = PURCHASE"
    by (simp_all add: ex_defs)
  have nums: "item_quantity ex_line_purchase = Finite 5" "price ex_line_purchase = Finite 30000"
    "item_quantity ex_line_restock = Finite 3" "price ex_line_restock = Finite 34000"
    by (simp_all add: ex_defs)
  have pos: "(0::rat) < 5" "(0::rat) < 3" by simp_all
  have rep: "representable 5" "representable 30000" "representable (5 * 30000)"
    "representable (3 * 34000)" "representable (5 + 3)"
    "representable (5 * 30000 + 3 * 34000)"
    by (simp_all add: representable_def)
  have quot: "representable ((5 * 30000 + 3 * 34000) / (5 + 3))"
    by (simp add: representable_def)
  have st: "inventory empty_state ''laptops'' = None \<and> ''laptops'' \<noteq> [] \<and>
      items ex_purchase = [ex_line_purchase] \<and> items ex_restock = [ex_line_restock] \<and>
      transactions empty_state (txn_id ex_purchase) = None \<and>
      transactions empty_state (txn_id ex_restock) = None \<and>
      txn_id ex_purchase \<noteq> txn_id ex_restock"
    by (simp add: ex_defs empty_state_def)
  have own: "\<not> inherited ''laptops''" by (simp add: inherited_def)
  note inst = purchase_twice_weighted_average [where ?t1.0 = ex_purchase and ?t2.0 = ex_restock
      and ?i1.0 = ex_line_purchase and ?i2.0 = ex_line_restock and k = "''laptops''"
      and ?q1.0 = 5 and ?c1.0 = 30000 and ?q2.0 = 3 and ?c2.0 = 34000 and s = empty_state
      and m = Map.empty,
      OF types ex_product_keys(1) ex_product_keys(3) nums pos rep]
  have vals: "description ex_line_purchase = ''Laptops''" "date ex_restock = 1708214400000"
    "Finite (5 + 3) = Finite 8"
    "round_double ((5 * 30000 + 3 * 34000) / (5 + 3)) = Finite 31500"
    by (simp_all add: ex_defs)
  have server: "submit_responses empty_state [ex_purchase, ex_restock] =
      [TransactionJson ex_purchase, TransactionJson ex_restock]"
    "inventory (submit_all empty_state [ex_purchase, ex_restock]) ''laptops'' =
     Some \<lparr>inv_id = ''laptops'', name = ''Laptops'', quantity = Finite 8,
           averageCost = Finite 31500, sellingPrice = Finite 0, lastUpdated = 1708214400000\<rparr>"
    using inst st by (simp_all only: vals simp_thms)
  have "inventory empty_state = Map.empty" by (simp add: empty_state_def)
  then have client: "client_apply (client_apply Map.empty ex_purchase) ex_restock ''laptops'' =
     Some \<lparr>inv_id = ''laptops'', name = ''Laptops'', quantity = Finite 8,
           averageCost = Finite 31500, sellingPrice = Finite 0, lastUpdated = 1708214400000\<rparr>"
    using inst st own by (simp only: vals simp_thms)
  from types nums rep quot st own server client ex_product_keys(1,3) show ?thesis by blast
qed

section \<open>Deriving from scratch and maintaining incrementally\<close>

text \<open>
  The two inventories differ on some histories. A purchase dated before a sale but
  submitted after it: the server applies the sale first and computes an average cost of
  37500, the client sorts by date and computes 30000. An edit of a sale under its id, the
  dates in order: the server ignores the second submission, the client's fold over the two
  records applies both, and its fold over the edited record alone applies the edit.
\<close>

theorem derive_vs_incremental_counterexample:
  "distinct (map txn_id [ex_sale, ex_purchase]) \<and>
   inventory (submit_all empty_state [ex_sale, ex_purchase]) \<noteq>
     deriveInventory_map [ex_sale, ex_purchase] \<and>
   inventory (submit_all empty_state [ex_sale, ex_purchase]) ''laptops'' =
     Some \<lparr>inv_id = ''laptops'', name = ''Laptops'', quantity = Finite 4,
           averageCost = Finite 37500, sellingPrice = Finite 35000,
           lastUpdated = 1707955200000\<rparr> \<and>
   deriveInventory_map [ex_sale, ex_purchase] ''laptops'' =
     Some \<lparr>inv_id = ''laptops'', name = ''Laptops'', quantity = Finite 4,
           averageCost = Finite 30000, sellingPrice = Finite 35000,
           lastUpdated = 1708387200000\<rparr> \<and>
   sorted (map date [ex_sale, ex_sale_edit]) \<and>
   inventory (submit_all empty_state [ex_sale, ex_sale_edit]) \<noteq>
     deriveInventory_map [ex_sale, ex_sale_edit] \<and>
   inventory (submit_all empty_state [ex_sale, ex_sale_edit]) ''laptops'' =
     Some \<lparr>inv_id = ''laptops'', name = ''Laptops'', quantity = Finite (- 1),
           averageCost = Finite 0, sellingPrice = Finite 35000,
           lastUpdated = 1708387200000\<rparr> \<and>
   deriveInventory_map [ex_sale, ex_sale_edit] ''laptops'' =
     Some \<lparr>inv_id = ''laptops'', name = ''Laptops'', quantity = Finite (- 3),
           averageCost = Finite 0, sellingPrice = Finite 36000,
           lastUpdated = 1708387200000\<rparr> \<and>
   deriveInventory_map [ex_sale_edit] ''laptops'' =
     Some \<lparr>inv_id = ''laptops'', name = ''Laptops'', quantity = Finite (- 2),
           averageCost = Finite 0, sellingPrice = Finite 36000,
           lastUpdated = 1708387200000\<rparr>"
proof -
  have ids: "distinct (map txn_id [ex_sale, ex_purchase])" by (simp add: ex_defs)
  have ordered: "sorted (map date [ex_sale, ex_sale_edit])" by (simp add: ex_defs)
  have s1: "inventory (submit_all empty_state [ex_sale, ex_purchase]) ''laptops'' =
     Some \<lparr>inv_id = ''laptops'', name = ''Laptops'', quantity = Finite 4,
           averageCost = Finite 37500, sellingPrice = Finite 35000,
           lastUpdated = 1707955200000\<rparr>"
    by (simp add: run_defs ex_defs ex_keys)
  have c1: "deriveInventory_map [ex_sale, ex_purchase] ''laptops'' =
     Some \<lparr>inv_id = ''laptops'', name = ''Laptops'', quantity = Finite 4,
           averageCost = Finite 30000, sellingPrice = Finite 35000,
           lastUpdated = 1708387200000\<rparr>"
    by (simp add: run_defs ex_defs ex_keys)
  have s2: "inventory (submit_all empty_state [ex_sale, ex_sale_edit]) ''laptops'' =
     Some \<lparr>inv_id = ''laptops'', name = ''Laptops'', quantity = Finite (- 1),
           averageCost = Finite 0, sellingPrice = Finite 35000,
           lastUpdated = 1708387200000\<rparr>"
    by (simp add: run_defs ex_defs ex_keys)
  have c2: "deriveInventory_map [ex_sale, ex_sale_edit] ''laptops'' =
     Some \<lparr>inv_id = ''laptops'', name = ''Laptops'', quantity = Finite (- 3),
           averageCost = Finite 0, sellingPrice = Finite 36000,
           lastUpdated = 1708387200000\<rparr>"
    by (simp add: run_defs ex_defs ex_keys)
  have c3: "deriveInventory_map [ex_sale_edit] ''laptops'' =
     Some \<lparr>inv_id = ''laptops'', name = ''Laptops'', quantity = Finite (- 2),
           averageCost = Finite 0, sellingPrice = Finite 36000,
           lastUpdated = 1708387200000\<rparr>"
    by (simp add: run_defs ex_defs ex_keys)
  have n1: "inventory (submit_all empty_state [ex_sale, ex_purchase]) \<noteq>
     deriveInventory_map [ex_sale, ex_purchase]"
  proof
    assume "inventory (submit_all empty_state [ex_sale, ex_purchase]) =
      deriveInventory_map [ex_sale, ex_purchase]"
    with s1 c1 show False by simp
  qed
  have n2: "inventory (submit_all empty_state [ex_sale, ex_sale_edit]) \<noteq>
     deriveInventory_map [ex_sale, ex_sale_edit]"
  proof
    assume "inventory (submit_all empty_state [ex_sale, ex_sale_edit]) =
      deriveInventory_map [ex_sale, ex_sale_edit]"
    with s2 c2 show False by simp
  qed
  from ids ordered s1 c1 s2 c2 c3 n1 n2 show ?thesis by blast
qed

lemma save_items_client:
  "snd (save_items m t is) = None \<Longrightarrow>
   \<forall>i \<in> set is. \<not> inherited (productKey (description i)) \<Longrightarrow>
   fst (save_items m t is) = foldl (\<lambda>m i. client_item_step m t i) m is"
proof (induction "is" arbitrary: m)
  case Nil
  then show ?case by simp
next
  case (Cons i "is")
  show ?case
  proof (cases "server_item_step m t i")
    case (Inl err)
    with Cons.prems(1) show ?thesis by simp
  next
    case (Inr m')
    then have "m' = m(productKey (description i) \<mapsto> invItem_of m t i)"
      by (simp only: server_item_step_Inr)
    moreover from Cons.prems(2) have "\<not> inherited (productKey (description i))" by simp
    ultimately have step: "client_item_step m t i = m'"
      by (simp add: client_item_step_created)
    from Cons.prems(1) Inr have "snd (save_items m' t is) = None" by simp
    moreover from Cons.prems(2) have "\<forall>i \<in> set is. \<not> inherited (productKey (description i))"
      by simp
    ultimately have "fst (save_items m' t is) = foldl (\<lambda>m i. client_item_step m t i) m' is"
      by (rule Cons.IH)
    with Inr step show ?thesis by simp
  qed
qed

lemma post_transactions_new_accepted:
  assumes "transactions s (txn_id t) = None"
    and "snd (post_transactions s t) \<noteq> Status500 ValidationError"
    and "\<forall>i \<in> set (items t). \<not> inherited (productKey (description i))"
  shows "inventory (fst (post_transactions s t)) = client_apply (inventory s) t"
    and "transactions (fst (post_transactions s t)) = (transactions s)(txn_id t \<mapsto> t)"
proof -
  have accepted: "snd (save_items (inventory s) t (items t)) = None"
  proof (cases "snd (save_items (inventory s) t (items t))")
    case None
    then show ?thesis .
  next
    case (Some err)
    with assms(1,2) show ?thesis by (cases err) (simp add: post_transactions_refused)
  qed
  then have "fst (save_items (inventory s) t (items t)) = client_apply (inventory s) t"
    using assms(3) unfolding client_apply_def by (rule save_items_client)
  with assms(1) accepted
  show "inventory (fst (post_transactions s t)) = client_apply (inventory s) t"
    and "transactions (fst (post_transactions s t)) = (transactions s)(txn_id t \<mapsto> t)"
    by (simp_all add: post_transactions_accepted)
qed

lemma submit_all_fresh:
  "distinct (map txn_id ts) \<Longrightarrow> \<forall>t \<in> set ts. transactions s (txn_id t) = None \<Longrightarrow>
   Status500 ValidationError \<notin> set (submit_responses s ts) \<Longrightarrow>
   \<forall>t \<in> set ts. \<forall>i \<in> set (items t). \<not> inherited (productKey (description i)) \<Longrightarrow>
   inventory (submit_all s ts) = foldl client_apply (inventory s) ts"
proof (induction ts arbitrary: s)
  case Nil
  then show ?case by (simp add: submit_all_def)
next
  case (Cons t ts)
  let ?s' = "fst (post_transactions s t)"
  from Cons.prems(2) have new: "transactions s (txn_id t) = None" by simp
  from Cons.prems(3) have ok: "snd (post_transactions s t) \<noteq> Status500 ValidationError"
    by auto
  from Cons.prems(4) have own: "\<forall>i \<in> set (items t). \<not> inherited (productKey (description i))"
    by simp
  note step = post_transactions_new_accepted [OF new ok own]
  have fresh: "\<forall>u \<in> set ts. transactions ?s' (txn_id u) = None"
  proof
    fix u assume u: "u \<in> set ts"
    then have "txn_id u \<in> set (map txn_id ts)" by simp
    moreover from Cons.prems(1) have "txn_id t \<notin> set (map txn_id ts)" by simp
    ultimately have "txn_id u \<noteq> txn_id t" by metis
    moreover from u Cons.prems(2) have "transactions s (txn_id u) = None" by simp
    ultimately show "transactions ?s' (txn_id u) = None" by (simp add: step(2))
  qed
  from Cons.prems(1) have d: "distinct (map txn_id ts)" by simp
  from Cons.prems(3) have r: "Status500 ValidationError \<notin> set (submit_responses ?s' ts)"
    by simp
  from Cons.prems(4)
  have o: "\<forall>t \<in> set ts. \<forall>i \<in> set (items t). \<not> inherited (productKey (description i))"
    by simp
  have "inventory (submit_all ?s' ts) = foldl client_apply (inventory ?s') ts"
    using d fresh r o by (rule Cons.IH)
  then show ?case by (simp add: submit_all_Cons step(1))
qed

text \<open>
  Claim C1, amended. For every transaction history that is in ascending order of date
  (ties allowed), whose ids are pairwise distinct, none of whose submissions the server
  answers with status 500 (so no line has a blank description) and none of whose product
  keys is one of the two inherited names, the inventory the server reaches from the empty
  state by the submissions in order is the inventory the client derives from scratch: the
  same keys, and the same record under each key.
\<close>

theorem derive_equals_incremental:
  assumes "sorted (map date ts)" and "distinct (map txn_id ts)"
    and "Status500 ValidationError \<notin> set (submit_responses empty_state ts)"
    and "\<forall>t \<in> set ts. \<forall>i \<in> set (items t). \<not> inherited (productKey (description i))"
  shows "inventory (submit_all empty_state ts) = deriveInventory_map ts \<and>
         ran (inventory (submit_all empty_state ts)) = deriveInventory ts"
proof -
  have "\<forall>t \<in> set ts. transactions empty_state (txn_id t) = None"
    by (simp add: empty_state_def)
  with assms(2) have "inventory (submit_all empty_state ts) =
      foldl client_apply (inventory empty_state) ts"
    using assms(3,4) by (rule submit_all_fresh)
  moreover have "sort_key date ts = ts"
    using assms(1) by (rule sort_key_id_if_sorted)
  ultimately show ?thesis
    by (simp add: deriveInventory_map_def deriveInventory_def empty_state_def)
qed

theorem derive_equals_incremental_witness:
  "sorted (map date [ex_purchase, ex_restock, ex_sale]) \<and>
   distinct (map txn_id [ex_purchase, ex_restock, ex_sale]) \<and>
   submit_responses empty_state [ex_purchase, ex_restock, ex_sale] =
     [TransactionJson ex_purchase, TransactionJson ex_restock, TransactionJson ex_sale] \<and>
   list_all (\<lambda>t. list_all (\<lambda>i. \<not> inherited (productKey (description i))) (items t))
     [ex_purchase, ex_restock, ex_sale] \<and>
   inventory (submit_all empty_state [ex_purchase, ex_restock, ex_sale]) =
     deriveInventory_map [ex_purchase, ex_restock, ex_sale] \<and>
   ran (inventory (submit_all empty_state [ex_purchase, ex_restock, ex_sale])) =
     deriveInventory [ex_purchase, ex_restock, ex_sale] \<and>
   deriveInventory_map [ex_purchase, ex_restock, ex_sale] ''laptops'' =
     Some \<lparr>inv_id = ''laptops'', name = ''Laptops'', quantity = Finite 7,
           averageCost = Finite 31500, sellingPrice = Finite 35000,
           lastUpdated = 1708387200000\<rparr>"
proof -
  have ordered: "sorted (map date [ex_purchase, ex_restock, ex_sale])"
    by (simp add: ex_defs)
  have ids: "distinct (map txn_id [ex_purchase, ex_restock, ex_sale])"
    by (simp add: ex_defs)
  have answers: "submit_responses empty_state [ex_purchase, ex_restock, ex_sale] =
     [TransactionJson ex_purchase, TransactionJson ex_restock, TransactionJson ex_sale]"
    by (simp add: run_defs ex_defs ex_keys)
  then have accepted: "Status500 ValidationError \<notin>
      set (submit_responses empty_state [ex_purchase, ex_restock, ex_sale])"
    by simp
  have own: "list_all (\<lambda>t. list_all (\<lambda>i. \<not> inherited (productKey (description i))) (items t))
     [ex_purchase, ex_restock, ex_sale]"
    by (simp add: ex_defs ex_keys productKey_def inherited_def)
  then have own': "\<forall>t \<in> set [ex_purchase, ex_restock, ex_sale].
      \<forall>i \<in> set (items t). \<not> inherited (productKey (description i))"
    by (simp add: list_all_iff)
  have v: "deriveInventory_map [ex_purchase, ex_restock, ex_sale] ''laptops'' =
     Some \<lparr>inv_id = ''laptops'', name = ''Laptops'', quantity = Finite 7,
           averageCost = Finite 31500, sellingPrice = Finite 35000,
           lastUpdated = 1708387200000\<rparr>"
    by (simp add: run_defs ex_defs ex_keys)
  from derive_equals_incremental [OF ordered ids accepted own'] ordered ids answers own v
  show ?thesis by blast
qed

end
